theory Spec2Isabelle
  imports Complex_Main
begin

text \<open>
  The furniture system of \<^verbatim>\<open>furniture.js\<close>: the notes with their store, the
  overlay and the delete confirmation, the physics world as far as the code drives it,
  and the frame that ties them together. The model comes first, the properties after it.
\<close>

section \<open>JavaScript values that cross the persistence boundary\<close>

text \<open>
  A JavaScript number is either finite or one of the three special values. The two
  zeros are identified: they are equal under \<^verbatim>\<open>===\<close>, both falsy, and
  \<^verbatim>\<open>JSON.stringify\<close> prints both as \<^verbatim>\<open>0\<close>.
\<close>

datatype jsnum = Fin real | NaN | PosInf | NegInf

text \<open>
  The value \<^verbatim>\<open>JSON.parse\<close> returns. An object is the list of its own properties.
  \<^verbatim>\<open>undefined\<close> is not a JSON value; an expression that may be undefined has type
  \<open>json option\<close>, with \<open>None\<close> for \<^verbatim>\<open>undefined\<close>.
\<close>

datatype json =
    JNull
  | JBool bool
  | JNum jsnum
  | JStr string
  | JArr "json list"
  | JObj "(string \<times> json) list"

datatype error = SyntaxError | TypeError

text \<open>
  What the code takes from the host and cannot be read off the repository: the
  conversions between numbers and strings behind \<^verbatim>\<open>Number(..)\<close> and
  \<^verbatim>\<open>String(..)\<close>, and the values \<^verbatim>\<open>Date.now()\<close> and
  \<^verbatim>\<open>Math.round(Math.random() * 1e6)\<close> seen by the k-th marker that is built.
\<close>

record host =
  str2num :: "string \<Rightarrow> jsnum"
  num2str :: "jsnum \<Rightarrow> string"
  now_rnd :: "nat \<Rightarrow> nat \<times> nat"

fun truthy :: "json \<Rightarrow> bool" where
  "truthy JNull = False"
| "truthy (JBool b) = b"
| "truthy (JNum n) = (n \<noteq> NaN \<and> n \<noteq> Fin 0)"
| "truthy (JStr s) = (s \<noteq> [])"
| "truthy (JArr xs) = True"
| "truthy (JObj kvs) = True"

text \<open>\<^verbatim>\<open>v || d\<close>, where \<open>v\<close> may be undefined.\<close>

definition or_else :: "json option \<Rightarrow> json \<Rightarrow> json" where
  "or_else v d = (case v of None \<Rightarrow> d | Some x \<Rightarrow> if truthy x then x else d)"

text \<open>
  Converting an object to a primitive calls its \<^verbatim>\<open>toString\<close>. A parsed object
  whose own property \<^verbatim>\<open>toString\<close> shadows the inherited method has nothing callable
  left that returns a primitive, and the conversion raises a TypeError. An array is
  joined, which converts every element other than \<^verbatim>\<open>null\<close>.
\<close>

fun unprintable :: "json \<Rightarrow> bool" where
  "unprintable (JObj kvs) = (map_of kvs ''toString'' \<noteq> None)"
| "unprintable (JArr xs) = list_ex unprintable xs"
| "unprintable v = False"

fun join_commas :: "string list \<Rightarrow> string" where
  "join_commas [] = []"
| "join_commas [s] = s"
| "join_commas (s # t # ss) = s @ '','' @ join_commas (t # ss)"

fun str_of :: "host \<Rightarrow> json \<Rightarrow> string" where
  "str_of H JNull = ''null''"
| "str_of H (JBool b) = (if b then ''true'' else ''false'')"
| "str_of H (JNum n) = num2str H n"
| "str_of H (JStr s) = s"
| "str_of H (JArr xs) =
     join_commas (map (\<lambda>x. if x = JNull then [] else str_of H x) xs)"
| "str_of H (JObj kvs) = ''[object Object]''"

definition String_js :: "host \<Rightarrow> json \<Rightarrow> error + string" where
  "String_js H v = (if unprintable v then Inl TypeError else Inr (str_of H v))"

fun Number_js :: "host \<Rightarrow> json option \<Rightarrow> error + jsnum" where
  "Number_js H None = Inr NaN"
| "Number_js H (Some JNull) = Inr (Fin 0)"
| "Number_js H (Some (JBool b)) = Inr (Fin (if b then 1 else 0))"
| "Number_js H (Some (JNum n)) = Inr n"
| "Number_js H (Some (JStr s)) = Inr (str2num H s)"
| "Number_js H (Some (JArr xs)) =
     (if unprintable (JArr xs) then Inl TypeError
      else Inr (str2num H (str_of H (JArr xs))))"
| "Number_js H (Some (JObj kvs)) =
     (if unprintable (JObj kvs) then Inl TypeError else Inr NaN)"

text \<open>\<^verbatim>\<open>n || 0\<close> on a number.\<close>

definition or_zero :: "jsnum \<Rightarrow> jsnum" where
  "or_zero n = (if n = NaN \<or> n = Fin 0 then Fin 0 else n)"

fun digits :: "nat \<Rightarrow> string" where
  "digits n =
     (if n < 10 then [char_of (48 + n)]
      else digits (n div 10) @ [char_of (48 + n mod 10)])"

text \<open>\<^verbatim>\<open>v?.key\<close> for one of the names the code reads; only an object has them.\<close>

fun get_field :: "json option \<Rightarrow> string \<Rightarrow> json option" where
  "get_field (Some (JObj kvs)) key = map_of kvs key"
| "get_field v key = None"

text \<open>\<^verbatim>\<open>v?.[k]\<close>: an array element, a character of a string, or an own property.\<close>

fun get_index :: "json option \<Rightarrow> nat \<Rightarrow> json option" where
  "get_index (Some (JArr xs)) k = (if k < length xs then Some (xs ! k) else None)"
| "get_index (Some (JStr s)) k = (if k < length s then Some (JStr [s ! k]) else None)"
| "get_index (Some (JObj kvs)) k = map_of kvs (digits k)"
| "get_index v k = None"

declare digits.simps [simp del]

section \<open>Notes, their pickable parts and the flat store\<close>

type_synonym jvec = "jsnum \<times> jsnum \<times> jsnum"

text \<open>
  A note object of \<^verbatim>\<open>createNoteMarker\<close>. \<open>ref\<close> is the identity of the object
  (what \<^verbatim>\<open>!==\<close> compares), \<open>position\<close> is \<^verbatim>\<open>group.position\<close>,
  \<open>root_visible\<close> is \<^verbatim>\<open>root.visible\<close> (the label) and \<open>torus_scale\<close> is the
  uniform scale of the halo (1, or 1.15 when highlighted).
\<close>

record note_obj =
  ref :: nat
  nid :: json
  content :: string
  position :: jvec
  root_visible :: bool
  torus_scale :: real

datatype part = Sphere | Torus | Bar | Dot

text \<open>A pickable mesh; \<open>owner\<close> is \<^verbatim>\<open>userData.note\<close>.\<close>

record pickable =
  part :: part
  owner :: nat

text \<open>
  What \<^verbatim>\<open>localStorage.getItem\<close> returns for the key, by what the code can do with
  it: the empty string, a text \<^verbatim>\<open>JSON.parse\<close> rejects, or the text of a value.
\<close>

datatype raw = RawEmpty | RawBad | RawJson json

record notes_st =
  all_notes :: "note_obj list"
  notePickables :: "pickable list"
  hoveredNote :: "nat option"
  activeNoteInput :: "nat option"
  activeConfirm3D :: "nat option"
  confirmLoop :: "nat option"
  notesLoaded :: bool
  storage :: "raw option"
  built :: nat

text \<open>
  The fields as \<^verbatim>\<open>init\<close> leaves them. The two dialog fields and the confirm loop
  hold the note the dialog was opened for; \<open>built\<close> counts the markers built so far
  and gives the next object identity.
\<close>

definition init_notes :: "raw option \<Rightarrow> notes_st" where
  "init_notes st =
     \<lparr>all_notes = [], notePickables = [], hoveredNote = None, activeNoteInput = None,
      activeConfirm3D = None, confirmLoop = None, notesLoaded = False,
      storage = st, built = 0\<rparr>"

text \<open>
  \<^verbatim>\<open>JSON.parse(JSON.stringify(v))\<close>: a number that is not finite is written as
  \<^verbatim>\<open>null\<close>.
\<close>

fun reparse :: "json \<Rightarrow> json" where
  "reparse (JNum (Fin r)) = JNum (Fin r)"
| "reparse (JNum n) = JNull"
| "reparse (JArr xs) = JArr (map reparse xs)"
| "reparse (JObj kvs) = JObj (map (\<lambda>(k, v). (k, reparse v)) kvs)"
| "reparse v = v"

definition JSON_stringify :: "json \<Rightarrow> raw" where
  "JSON_stringify v = RawJson (reparse v)"

fun JSON_parse :: "raw \<Rightarrow> error + json" where
  "JSON_parse (RawJson v) = Inr v"
| "JSON_parse r = Inl SyntaxError"

definition note_data :: "note_obj \<Rightarrow> json" where
  "note_data n =
     JObj [(''id'', nid n), (''content'', JStr (content n)),
           (''position'', JArr [JNum (fst (position n)), JNum (fst (snd (position n))),
                               JNum (snd (snd (position n)))])]"

text \<open>
  \<^verbatim>\<open>_saveNotesToStorage\<close>. A write the store refuses is caught and logged by the
  code; the store is taken to accept every write.
\<close>

definition saveNotesToStorage :: "notes_st \<Rightarrow> notes_st" where
  "saveNotesToStorage s =
     s\<lparr>storage := Some (JSON_stringify (JArr (map note_data (all_notes s))))\<rparr>"

definition openNoteInput :: "nat \<Rightarrow> notes_st \<Rightarrow> notes_st" where
  "openNoteInput r s = s\<lparr>activeNoteInput := Some r\<rparr>"

definition gen_id :: "host \<Rightarrow> nat \<Rightarrow> string" where
  "gen_id H k = digits (fst (now_rnd H k)) @ ''-'' @ digits (snd (now_rnd H k))"

text \<open>
  \<^verbatim>\<open>createNoteMarker(position, content, openInput, id)\<close>; \<open>id\<close> is \<open>None\<close> when
  the argument is left out or undefined.
\<close>

definition createNoteMarker ::
  "host \<Rightarrow> jvec \<Rightarrow> string \<Rightarrow> bool \<Rightarrow> json option \<Rightarrow> notes_st \<Rightarrow> notes_st" where
  "createNoteMarker H pos c openInput i s =
     (let r = built s;
          n = \<lparr>ref = r,
               nid = or_else i (JStr (gen_id H r)),
               content = c, position = pos, root_visible = False, torus_scale = 1\<rparr>;
          s1 = s\<lparr>notePickables := notePickables s @
                    map (\<lambda>p. \<lparr>part = p, owner = r\<rparr>) [Sphere, Torus, Bar, Dot],
                  all_notes := all_notes s @ [n], built := Suc r\<rparr>;
          s2 = saveNotesToStorage s1
      in if openInput then openNoteInput r s2 else s2)"

text \<open>\<^verbatim>\<open>_removeNote(note)\<close>; \<open>None\<close> is a null or undefined argument.\<close>

definition removeNote :: "nat option \<Rightarrow> notes_st \<Rightarrow> notes_st" where
  "removeNote note s =
     (case note of
        None \<Rightarrow> s
      | Some r \<Rightarrow>
          saveNotesToStorage
            (s\<lparr>notePickables := filter (\<lambda>p. owner p \<noteq> r) (notePickables s),
               all_notes := filter (\<lambda>n. ref n \<noteq> r) (all_notes s),
               hoveredNote := None\<rparr>))"

definition openDeleteConfirm :: "nat \<Rightarrow> notes_st \<Rightarrow> notes_st" where
  "openDeleteConfirm r s = s\<lparr>confirmLoop := Some r, activeConfirm3D := Some r\<rparr>"

text \<open>\<^verbatim>\<open>Number(item?.position?.[k]) || 0\<close> and \<^verbatim>\<open>String(item?.content || '')\<close>.\<close>

definition coord :: "host \<Rightarrow> json \<Rightarrow> nat \<Rightarrow> error + jsnum" where
  "coord H item k =
     (case Number_js H (get_index (get_field (Some item) ''position'') k) of
        Inl e \<Rightarrow> Inl e
      | Inr n \<Rightarrow> Inr (or_zero n))"

definition item_content :: "host \<Rightarrow> json \<Rightarrow> error + string" where
  "item_content H item =
     String_js H (or_else (get_field (Some item) ''content'') (JStr []))"

text \<open>
  The arguments one element of the array gives to \<^verbatim>\<open>createNoteMarker\<close>, or the
  error raised while they are computed.
\<close>

definition item_args :: "host \<Rightarrow> json \<Rightarrow> error + (jvec \<times> string \<times> json option)" where
  "item_args H item =
     (case coord H item 0 of
        Inl e \<Rightarrow> Inl e
      | Inr x \<Rightarrow>
         (case coord H item 1 of
            Inl e \<Rightarrow> Inl e
          | Inr y \<Rightarrow>
             (case coord H item 2 of
                Inl e \<Rightarrow> Inl e
              | Inr z \<Rightarrow>
                 (case item_content H item of
                    Inl e \<Rightarrow> Inl e
                  | Inr c \<Rightarrow> Inr ((x, y, z), c, get_field (Some item) ''id'')))))"

text \<open>
  The \<^verbatim>\<open>for\<close> loop. An error leaves the loop and is caught by the enclosing
  \<^verbatim>\<open>try\<close>: the markers built before it stay.
\<close>

fun load_items :: "host \<Rightarrow> json list \<Rightarrow> notes_st \<Rightarrow> notes_st" where
  "load_items H [] s = s"
| "load_items H (item # items) s =
     (case item_args H item of
        Inl e \<Rightarrow> s
      | Inr (pos, c, i) \<Rightarrow> load_items H items (createNoteMarker H pos c False i s))"

definition loadNotesFromStorage :: "host \<Rightarrow> notes_st \<Rightarrow> notes_st" where
  "loadNotesFromStorage H s =
     (case storage s of
        None \<Rightarrow> s
      | Some RawEmpty \<Rightarrow> s
      | Some r \<Rightarrow>
          (case JSON_parse r of
             Inl e \<Rightarrow> s
           | Inr (JArr arr) \<Rightarrow> load_items H arr s
           | Inr v \<Rightarrow> s))"

text \<open>The k-th component of a position.\<close>

fun vget :: "jvec \<Rightarrow> nat \<Rightarrow> jsnum" where
  "vget (x, y, z) k = (if k = 0 then x else if k = 1 then y else z)"

definition component :: "json \<Rightarrow> nat \<Rightarrow> json option" where
  "component item k = get_index (get_field (Some item) ''position'') k"

definition raises :: "host \<Rightarrow> json \<Rightarrow> bool" where
  "raises H item = (case item_args H item of Inl e \<Rightarrow> True | Inr a \<Rightarrow> False)"

text \<open>A host for evaluating examples; none of them converts a number to or from text.\<close>

definition sample_host :: host where
  "sample_host =
     \<lparr>str2num = (\<lambda>s. if s = [] then Fin 0 else NaN),
      num2str = (\<lambda>n. ''NaN''),
      now_rnd = (\<lambda>k. (1700000000000 + k, k))\<rparr>"

section \<open>The text-entry overlay and the delete confirmation\<close>

text \<open>
  \<^verbatim>\<open>String.prototype.trim\<close>. A string is the list of the bytes of its UTF-8 encoding,
  so a white-space or line-terminator character of the language is one of the byte
  sequences below: U+0009 to U+000D, U+0020, U+00A0, U+1680, U+2000 to U+200A, U+2028,
  U+2029, U+202F, U+205F, U+3000 and U+FEFF.
\<close>

definition white_space :: "string list" where
  "white_space =
     [[CHR 0x09], [CHR 0x0A], [CHR 0x0B], [CHR 0x0C], [CHR 0x0D], [CHR 0x20],
      [CHR 0xC2, CHR 0xA0],
      [CHR 0xE1, CHR 0x9A, CHR 0x80],
      [CHR 0xE2, CHR 0x80, CHR 0x80], [CHR 0xE2, CHR 0x80, CHR 0x81],
      [CHR 0xE2, CHR 0x80, CHR 0x82], [CHR 0xE2, CHR 0x80, CHR 0x83],
      [CHR 0xE2, CHR 0x80, CHR 0x84], [CHR 0xE2, CHR 0x80, CHR 0x85],
      [CHR 0xE2, CHR 0x80, CHR 0x86], [CHR 0xE2, CHR 0x80, CHR 0x87],
      [CHR 0xE2, CHR 0x80, CHR 0x88], [CHR 0xE2, CHR 0x80, CHR 0x89],
      [CHR 0xE2, CHR 0x80, CHR 0x8A],
      [CHR 0xE2, CHR 0x80, CHR 0xA8], [CHR 0xE2, CHR 0x80, CHR 0xA9],
      [CHR 0xE2, CHR 0x80, CHR 0xAF],
      [CHR 0xE2, CHR 0x81, CHR 0x9F],
      [CHR 0xE3, CHR 0x80, CHR 0x80],
      [CHR 0xEF, CHR 0xBB, CHR 0xBF]]"

text \<open>Dropping from the front every leading sequence among \<open>ws\<close>.\<close>

function strip :: "string list \<Rightarrow> string \<Rightarrow> string" where
  "strip ws s =
     (case find (\<lambda>w. w \<noteq> [] \<and> take (length w) s = w) ws of
        None \<Rightarrow> s
      | Some w \<Rightarrow> strip ws (drop (length w) s))"
  by pat_completeness auto
termination
proof (relation "measure (\<lambda>(ws, s). length s)")
  show "wf (measure (\<lambda>(ws, s). length s))" by simp
next
  fix ws :: "string list" and s w :: string
  assume "find (\<lambda>w. w \<noteq> [] \<and> take (length w) s = w) ws = Some w"
  then have "w \<noteq> []" and "take (length w) s = w" by (auto simp: find_Some_iff)
  then have "s \<noteq> []" by auto
  with \<open>w \<noteq> []\<close> show "((ws, drop (length w) s), (ws, s)) \<in> measure (\<lambda>(ws, s). length s)"
    by simp
qed

declare strip.simps [simp del]

definition trim :: "string \<Rightarrow> string" where
  "trim s = rev (strip (map rev white_space) (rev (strip white_space s)))"

text \<open>
  The three buttons of the overlay. The overlay on screen is the one
  \<^verbatim>\<open>_activeNoteInput\<close> holds, and its handlers act on the note it was opened for;
  with no overlay there is nothing to click. \<open>v\<close> is the text in the field.
\<close>

definition input_save :: "string \<Rightarrow> notes_st \<Rightarrow> notes_st" where
  "input_save v s =
     (case activeNoteInput s of
        None \<Rightarrow> s
      | Some r \<Rightarrow>
          (saveNotesToStorage
             (s\<lparr>all_notes :=
                  map (\<lambda>n. if ref n = r then n\<lparr>content := trim v\<rparr> else n) (all_notes s)\<rparr>))
          \<lparr>activeNoteInput := None\<rparr>)"

definition input_cancel :: "notes_st \<Rightarrow> notes_st" where
  "input_cancel s = s\<lparr>activeNoteInput := None\<rparr>"

definition input_remove :: "notes_st \<Rightarrow> notes_st" where
  "input_remove s =
     (case activeNoteInput s of
        None \<Rightarrow> s
      | Some r \<Rightarrow> (removeNote (Some r) s)\<lparr>activeNoteInput := None\<rparr>)"

section \<open>The controller and what the rays hit\<close>

datatype button = TRIGGER | SQUEEZE | BUTTON_1 | BUTTON_2

type_synonym vec3 = "real \<times> real \<times> real"
type_synonym quat = "real \<times> real \<times> real \<times> real"

text \<open>
  The gamepad in one frame: the buttons for which \<^verbatim>\<open>getButtonDown\<close> and
  \<^verbatim>\<open>getButtonClick\<close> answer true, and the horizontal axis of the thumbstick.
\<close>

record gamepad =
  down :: "button set"
  click :: "button set"
  thumbstick_x :: real

record controller =
  targetRaySpace :: bool
  gamepadWrapper :: "gamepad option"

text \<open>
  What one frame reads from outside: the right controller, the first hit of its ray on
  the floor mesh, the index in \<^verbatim>\<open>_notePickables\<close> of the first pickable the ray
  hits, whether the ray is over the confirm and the cancel target of the dialog, and the
  pose the physics engine gives the carried body when the world is stepped.
\<close>

record frame =
  right :: "controller option"
  floor_hit :: "vec3 option"
  note_hit :: "nat option"
  over_confirm :: bool
  over_cancel :: bool
  stepped :: "vec3 \<times> quat"

definition button_click :: "controller \<Rightarrow> button \<Rightarrow> bool" where
  "button_click c b = (case gamepadWrapper c of None \<Rightarrow> False | Some g \<Rightarrow> b \<in> click g)"

definition cleanup :: "notes_st \<Rightarrow> notes_st" where
  "cleanup s = s\<lparr>activeConfirm3D := None, confirmLoop := None\<rparr>"

text \<open>\<^verbatim>\<open>onFrame\<close> of the dialog opened for the note \<open>r\<close>.\<close>

definition confirm_onFrame :: "frame \<Rightarrow> nat \<Rightarrow> notes_st \<Rightarrow> notes_st" where
  "confirm_onFrame f r s =
     (case right f of
        None \<Rightarrow> s
      | Some c \<Rightarrow>
          if \<not> targetRaySpace c then s
          else if button_click c BUTTON_1 then
            (if over_confirm f then cleanup (removeNote (Some r) s)
             else if over_cancel f then cleanup s
             else s)
          else s)"

section \<open>The physics world\<close>

text \<open>
  The rigid-body engine is outside the repository. The world is what the code puts into
  it and can read back: the colliders by handle, the carrying body that
  \<^verbatim>\<open>rigidBody\<close> holds, the fixed bodies created later, the time step, and a log of
  the calls whose effect is the engine's own business. \<open>made_by\<close> records which place
  of the code created a collider; the engine does not know it.
\<close>

datatype made_by = FloorSlab | Wall | Carrier | Placed

datatype body_ref = CarryingBody | FixedBody nat

record collider =
  made_by :: made_by
  half_extents :: vec3
  c_translation :: vec3
  c_rotation :: quat
  friction :: "real option"
  attached_to :: "body_ref option"

text \<open>A velocity is \<open>None\<close> once an impulse or a step has left it to the engine.\<close>

record rigid_body =
  dynamic :: bool
  translation :: vec3
  rotation :: quat
  linvel :: "vec3 option"
  angvel :: "vec3 option"
  mass :: real

datatype engine_call =
    ApplyImpulse vec3
  | ApplyTorqueImpulse vec3
  | Step real

record pworld =
  colliders :: "(nat \<times> collider) list"
  next_handle :: nat
  floorCollider :: nat
  rigidBody :: rigid_body
  fixed_bodies :: "rigid_body list"
  timestep :: real
  engine_log :: "engine_call list"

definition identity_quat :: quat where
  "identity_quat = (0, 0, 0, 1)"

definition cuboid :: "made_by \<Rightarrow> vec3 \<Rightarrow> collider" where
  "cuboid m h =
     \<lparr>made_by = m, half_extents = h, c_translation = (0, 0, 0),
      c_rotation = identity_quat, friction = None, attached_to = None\<rparr>"

definition createCollider :: "collider \<Rightarrow> pworld \<Rightarrow> pworld" where
  "createCollider c w =
     w\<lparr>colliders := colliders w @ [(next_handle w, c)], next_handle := Suc (next_handle w)\<rparr>"

definition removeCollider :: "nat \<Rightarrow> pworld \<Rightarrow> pworld" where
  "removeCollider h w = w\<lparr>colliders := filter (\<lambda>(k, c). k \<noteq> h) (colliders w)\<rparr>"

definition applyImpulse :: "vec3 \<Rightarrow> pworld \<Rightarrow> pworld" where
  "applyImpulse v w =
     w\<lparr>rigidBody := (rigidBody w)\<lparr>linvel := None\<rparr>,
       engine_log := engine_log w @ [ApplyImpulse v]\<rparr>"

definition applyTorqueImpulse :: "vec3 \<Rightarrow> pworld \<Rightarrow> pworld" where
  "applyTorqueImpulse v w =
     w\<lparr>rigidBody := (rigidBody w)\<lparr>angvel := None\<rparr>,
       engine_log := engine_log w @ [ApplyTorqueImpulse v]\<rparr>"

text \<open>
  \<^verbatim>\<open>world.step()\<close>: logged with the time step in force; the pose of the carrying body
  afterwards is the one the frame brings.
\<close>

definition step_world :: "vec3 \<times> quat \<Rightarrow> pworld \<Rightarrow> pworld" where
  "step_world pose w =
     w\<lparr>rigidBody := (rigidBody w)\<lparr>translation := fst pose, rotation := snd pose,
                                   linvel := None, angvel := None\<rparr>,
       engine_log := engine_log w @ [Step (timestep w)]\<rparr>"

definition spawn_point :: vec3 where
  "spawn_point = (0, 3, 0)"

text \<open>
  The world the callback of \<^verbatim>\<open>init\<close> builds once the engine is loaded: the ground
  slab, whose handle goes to \<^verbatim>\<open>floorCollider\<close>, the carrying body and its collider.
  \<open>m\<close> is the mass the engine gives the body.
\<close>

definition init_world :: "real \<Rightarrow> pworld" where
  "init_world m =
     createCollider
       ((cuboid Carrier (1/2, 1/2, 1/2))\<lparr>friction := Some 0, attached_to := Some CarryingBody\<rparr>)
       (createCollider ((cuboid FloorSlab (10, 0, 10))\<lparr>friction := Some (1/2)\<rparr>)
          \<lparr>colliders = [], next_handle = 0, floorCollider = 0,
           rigidBody = \<lparr>dynamic = True, translation = spawn_point, rotation = identity_quat,
                        linvel = Some (0, 0, 0), angvel = Some (0, 0, 0), mass = m\<rparr>,
           fixed_bodies = [], timestep = 1/60, engine_log = []\<rparr>)"

section \<open>The furniture system\<close>

text \<open>
  The scene graph, as far as finalize needs it. A pose is a position and a quaternion
  (x, y, z, w); the world pose of a child is its local pose carried by the world pose of
  its parent. The products are those of the rendering library.
\<close>

type_synonym pose = "vec3 \<times> quat"

definition qmul :: "quat \<Rightarrow> quat \<Rightarrow> quat" where
  "qmul a b =
     (case a of (ax, ay, az, aw) \<Rightarrow> case b of (bx, by, bz, bw) \<Rightarrow>
        (ax * bw + aw * bx + ay * bz - az * by,
         ay * bw + aw * by + az * bx - ax * bz,
         az * bw + aw * bz + ax * by - ay * bx,
         aw * bw - ax * bx - ay * by - az * bz))"

definition cross :: "vec3 \<Rightarrow> vec3 \<Rightarrow> vec3" where
  "cross a b =
     (case a of (ax, ay, az) \<Rightarrow> case b of (bx, by, bz) \<Rightarrow>
        (ay * bz - az * by, az * bx - ax * bz, ax * by - ay * bx))"

definition vadd :: "vec3 \<Rightarrow> vec3 \<Rightarrow> vec3" where
  "vadd a b = (fst a + fst b, fst (snd a) + fst (snd b), snd (snd a) + snd (snd b))"

definition applyQuaternion :: "quat \<Rightarrow> vec3 \<Rightarrow> vec3" where
  "applyQuaternion q v =
     (case q of (qx, qy, qz, qw) \<Rightarrow>
        let t = cross (2 * qx, 2 * qy, 2 * qz) v
        in vadd v (vadd (case t of (tx, ty, tz) \<Rightarrow> (qw * tx, qw * ty, qw * tz))
                        (cross (qx, qy, qz) t)))"

definition world_pose :: "pose \<Rightarrow> pose \<Rightarrow> pose" where
  "world_pose parent child =
     (vadd (fst parent) (applyQuaternion (snd parent) (fst child)),
      qmul (snd parent) (snd child))"

text \<open>The scene itself is never moved: its world pose is the origin, unturned.\<close>

definition scene_pose :: pose where
  "scene_pose = ((0, 0, 0), (0, 0, 0, 1))"

text \<open>
  \<^verbatim>\<open>scene.attach(model)\<close> moves the model under the scene and gives it the local
  pose that keeps its world pose: the world pose it has under its old parent, carried
  back by the inverse of the pose of the scene.
\<close>

definition pose_inverse :: "pose \<Rightarrow> pose" where
  "pose_inverse p =
     (case p of ((x, y, z), (qx, qy, qz, qw)) \<Rightarrow>
        (applyQuaternion (- qx, - qy, - qz, qw) (- x, - y, - z), (- qx, - qy, - qz, qw)))"

definition attach_to_scene :: "pose \<Rightarrow> pose \<Rightarrow> pose" where
  "attach_to_scene parent child =
     world_pose (pose_inverse scene_pose) (world_pose parent child)"

text \<open>
  The fields of the system and the globals it shares. \<open>cube_made\<close> says that the first
  frame after the engine arrived has built the cube, the floor mesh and the target
  marker; \<open>floor_y\<close> is \<^verbatim>\<open>floor.position.y\<close>; \<open>furnitureModel\<close> is the model hanging
  on the cube and \<open>model_local\<close> its pose relative to the cube; \<open>scene_furniture\<close>
  lists the models \<^verbatim>\<open>scene.attach\<close> has moved under the scene, each with its
  \<^verbatim>\<open>castShadow\<close> and its pose relative to the scene; \<open>loads\<close> are the asset
  requests handed to the loader and not yet answered.
\<close>

record fsys =
  RAPIER :: bool
  rapierWorld :: pworld
  cube_made :: bool
  cube_position :: vec3
  cube_quaternion :: quat
  furnitureModel :: "nat option"
  floor_y :: real
  targetMarker_visible :: bool
  targetMarker_position :: vec3
  furnitureLoading :: bool
  furnitureToSpawn :: "string option"
  loads :: "string list"
  model_local :: pose
  scene_furniture :: "(nat \<times> bool \<times> pose) list"
  ns :: notes_st

definition init_sys :: "raw option \<Rightarrow> fsys" where
  "init_sys st =
     \<lparr>RAPIER = False, rapierWorld = init_world 0, cube_made = False,
      cube_position = (0, 0, 0), cube_quaternion = identity_quat, furnitureModel = None,
      floor_y = 0, targetMarker_visible = True, targetMarker_position = (0, 0, 0),
      furnitureLoading = False, furnitureToSpawn = None, loads = [],
      model_local = ((0, 0, 0), identity_quat), scene_furniture = [],
      ns = init_notes st\<rparr>"

definition rapier_loaded :: "real \<Rightarrow> fsys \<Rightarrow> fsys" where
  "rapier_loaded m s = s\<lparr>RAPIER := True, rapierWorld := init_world m\<rparr>"

text \<open>
  \<open>Vertical\<close> is the orientation the code tests for; every other orientation is
  \<open>Horizontal\<close>.
\<close>

datatype orientation = Horizontal | Vertical

text \<open>
  A discovered plane. \<open>probe\<close> is the first hit on the plane's mesh of the ray cast
  straight down from (0, 2, 0), if there is one.
\<close>

record plane =
  orientation :: orientation
  semanticLabel :: string
  boundingRectangleWidth :: real
  boundingRectangleHeight :: real
  p_position :: vec3
  p_quaternion :: quat
  probe :: "vec3 option"

definition vy :: "vec3 \<Rightarrow> real" where
  "vy v = fst (snd v)"

text \<open>\<^verbatim>\<open>ratk.onPlaneAdded\<close>, which the first frame installs.\<close>

definition onPlaneAdded :: "plane \<Rightarrow> fsys \<Rightarrow> fsys" where
  "onPlaneAdded p s =
     (if orientation p = Vertical then
        s\<lparr>rapierWorld :=
            createCollider
              ((cuboid Wall (boundingRectangleWidth p, 0, boundingRectangleHeight p))
                 \<lparr>c_translation := p_position p, c_rotation := p_quaternion p\<rparr>)
              (rapierWorld s)\<rparr>
      else if semanticLabel p = ''floor'' then
        (case probe p of
           None \<Rightarrow> s
         | Some hit \<Rightarrow>
             let w1 = removeCollider (floorCollider (rapierWorld s)) (rapierWorld s);
                 w2 = (createCollider
                         ((cuboid FloorSlab (10, 0, 10))
                            \<lparr>c_translation := (0, vy hit, 0), friction := Some (1/2)\<rparr>) w1)
                       \<lparr>floorCollider := next_handle w1\<rparr>;
                 w3 = w2\<lparr>rigidBody := (rigidBody w2)\<lparr>translation := (0, vy hit + 3, 0)\<rparr>\<rparr>
             in s\<lparr>rapierWorld := w3, floor_y := vy hit\<rparr>)
      else s)"

text \<open>
  \<^verbatim>\<open>finalizeFurniturePosition\<close>, in its two halves. First the model leaves the cube:
  \<^verbatim>\<open>scene.attach\<close>, the shadow, and the slot on the cube emptied.
\<close>

definition detach_model :: "nat \<Rightarrow> fsys \<Rightarrow> fsys" where
  "detach_model m s =
     s\<lparr>scene_furniture :=
         scene_furniture s @
           [(m, True, attach_to_scene (cube_position s, cube_quaternion s) (model_local s))],
       furnitureModel := None\<rparr>"

text \<open>
  Then a fixed body with its collider is made where the carrying body is, and the
  carrying body is sent back.
\<close>

definition fix_in_place :: "fsys \<Rightarrow> fsys" where
  "fix_in_place s =
     (let w = rapierWorld s;
          fixedRigidBody =
            \<lparr>dynamic = False, translation = translation (rigidBody w),
             rotation = rotation (rigidBody w), linvel = Some (0, 0, 0),
             angvel = Some (0, 0, 0), mass = 0\<rparr>;
          w1 = w\<lparr>fixed_bodies := fixed_bodies w @ [fixedRigidBody]\<rparr>;
          w2 = createCollider
                 ((cuboid Placed (1/2, 1/2, 1/2))
                    \<lparr>friction := Some (1/2),
                     attached_to := Some (FixedBody (length (fixed_bodies w)))\<rparr>) w1;
          w3 = w2\<lparr>rigidBody := (rigidBody w2)\<lparr>translation := spawn_point,
                                            linvel := Some (0, 0, 0),
                                            angvel := Some (0, 0, 0)\<rparr>\<rparr>
      in s\<lparr>rapierWorld := w3\<rparr>)"

text \<open>
  The method itself. Its first line reads \<^verbatim>\<open>this.cube.userData\<close>, which raises a
  TypeError while the first frame has not built the cube; with no model on the cube it
  returns; and after the model has left the cube it reads \<^verbatim>\<open>this.rigidBody\<close>,
  which raises a TypeError while the engine has not arrived. The state comes back as
  the raise leaves it.
\<close>

definition finalizeFurniturePosition :: "fsys \<Rightarrow> error option \<times> fsys" where
  "finalizeFurniturePosition s =
     (if \<not> cube_made s then (Some TypeError, s)
      else
        case furnitureModel s of
          None \<Rightarrow> (None, s)
        | Some m \<Rightarrow>
            if \<not> RAPIER s then (Some TypeError, detach_model m s)
            else (None, fix_in_place (detach_model m s)))"

text \<open>What finalize leaves behind where the cube and the engine exist.\<close>

definition finalize_placed :: "fsys \<Rightarrow> fsys" where
  "finalize_placed s =
     (case furnitureModel s of
        None \<Rightarrow> s
      | Some m \<Rightarrow> fix_in_place (detach_model m s))"

text \<open>
  The callback of the asset loader, with the model it brings: the root of the loaded
  scene, at the origin of its file, is lowered by 0.5 and hung on the cube.
\<close>

definition gltf_loaded :: "nat \<Rightarrow> fsys \<Rightarrow> fsys" where
  "gltf_loaded m s =
     (case loads s of
        [] \<Rightarrow> s
      | a # as \<Rightarrow>
          s\<lparr>loads := as, furnitureModel := Some m, furnitureLoading := False,
            model_local := ((0, - (1/2), 0), identity_quat)\<rparr>)"

section \<open>One frame\<close>

definition fin :: "vec3 \<Rightarrow> jvec" where
  "fin v = (Fin (fst v), Fin (fst (snd v)), Fin (snd (snd v)))"

definition vsub :: "vec3 \<Rightarrow> vec3 \<Rightarrow> vec3" where
  "vsub a b = (fst a - fst b, fst (snd a) - fst (snd b), snd (snd a) - snd (snd b))"

definition vscale :: "real \<Rightarrow> vec3 \<Rightarrow> vec3" where
  "vscale k a = (k * fst a, k * fst (snd a), k * snd (snd a))"

definition vlength :: "vec3 \<Rightarrow> real" where
  "vlength a = sqrt (fst a * fst a + fst (snd a) * fst (snd a) + snd (snd a) * snd (snd a))"

text \<open>\<^verbatim>\<open>normalize()\<close> divides by the length, or by 1 when the length is 0.\<close>

definition normalize_vec :: "vec3 \<Rightarrow> vec3" where
  "normalize_vec a = vscale (1 / (if vlength a = 0 then 1 else vlength a)) a"

text \<open>
  The first frame with the engine present builds the scene primitives, installs the
  plane callback and restores the notes.
\<close>

definition first_frame :: "host \<Rightarrow> fsys \<Rightarrow> fsys" where
  "first_frame H s =
     (if cube_made s then s
      else
        s\<lparr>cube_made := True, cube_position := (0, 0, 0), cube_quaternion := identity_quat,
          furnitureModel := None, floor_y := 0, targetMarker_visible := True,
          targetMarker_position := (0, 0, 0),
          ns := (if notesLoaded (ns s) then ns s
                 else (loadNotesFromStorage H (ns s))\<lparr>notesLoaded := True\<rparr>)\<rparr>)"

definition spawn_block :: "fsys \<Rightarrow> fsys" where
  "spawn_block s =
     (case furnitureToSpawn s of
        None \<Rightarrow> s
      | Some name \<Rightarrow>
          if name = [] then s
          else
            (if furnitureModel s = None \<and> \<not> furnitureLoading s
             then s\<lparr>furnitureLoading := True, loads := loads s @ [''assets/'' @ name]\<rparr>
             else s)
            \<lparr>furnitureToSpawn := None\<rparr>)"

text \<open>The note whose pickable the ray hits first, if any.\<close>

definition hovered_now :: "frame \<Rightarrow> notes_st \<Rightarrow> nat option" where
  "hovered_now f s =
     (if notePickables s = [] then None
      else case note_hit f of
             None \<Rightarrow> None
           | Some k \<Rightarrow>
               if k < length (notePickables s) then Some (owner (notePickables s ! k))
               else None)"

definition hover_block :: "frame \<Rightarrow> notes_st \<Rightarrow> notes_st" where
  "hover_block f s =
     (let hovered = hovered_now f s
      in if hoveredNote s \<noteq> hovered then
           s\<lparr>all_notes :=
                map (\<lambda>n. if Some (ref n) = hovered
                         then n\<lparr>torus_scale := 115 / 100, root_visible := True\<rparr> else n)
                  (map (\<lambda>n. n\<lparr>root_visible := False\<rparr>)
                     (map (\<lambda>n. if Some (ref n) = hoveredNote s
                               then n\<lparr>torus_scale := 1\<rparr> else n)
                        (all_notes s))),
             hoveredNote := hovered\<rparr>
         else s)"

text \<open>
  The B button. \<open>target\<close> is the point of the floor the ray hits and \<open>cp\<close> the
  position of the cube.
\<close>

definition button2_block ::
  "host \<Rightarrow> controller \<Rightarrow> vec3 option \<Rightarrow> vec3 \<Rightarrow> notes_st \<Rightarrow> notes_st" where
  "button2_block H c target cp s =
     (if button_click c BUTTON_2 then
        (case hoveredNote s of
           Some r \<Rightarrow> openDeleteConfirm r s
         | None \<Rightarrow>
             if activeConfirm3D s = None then
               createNoteMarker H (fin (case target of Some t \<Rightarrow> t | None \<Rightarrow> cp))
                 [] True None s
             else s)
      else s)"

definition button1_block :: "controller \<Rightarrow> notes_st \<Rightarrow> notes_st" where
  "button1_block c s =
     (case hoveredNote s of
        Some r \<Rightarrow> if button_click c BUTTON_1 then openNoteInput r s else s
      | None \<Rightarrow> s)"

definition squeeze_block :: "controller \<Rightarrow> notes_st \<Rightarrow> notes_st" where
  "squeeze_block c s =
     (case hoveredNote s of
        Some r \<Rightarrow> if button_click c SQUEEZE then removeNote (Some r) s else s
      | None \<Rightarrow> s)"

definition target_block :: "vec3 option \<Rightarrow> fsys \<Rightarrow> fsys" where
  "target_block target s =
     (case target of
        None \<Rightarrow> s\<lparr>targetMarker_visible := False\<rparr>
      | Some t \<Rightarrow>
          let w = rapierWorld s;
              dir = vsub t (translation (rigidBody w))
          in s\<lparr>targetMarker_visible := True, targetMarker_position := t,
               rapierWorld :=
                 (if vlength dir < 1 / 100
                  then w\<lparr>rigidBody := (rigidBody w)\<lparr>linvel := Some (0, 0, 0)\<rparr>\<rparr>
                  else applyImpulse
                         (vscale (mass (rigidBody w)) (vscale (1 / 10) (normalize_vec dir))) w)\<rparr>)"

definition physics_block :: "gamepad \<Rightarrow> real \<Rightarrow> frame \<Rightarrow> fsys \<Rightarrow> fsys" where
  "physics_block g delta f s =
     (let w1 = applyTorqueImpulse (0, thumbstick_x g * (- (6 / 100)), 0) (rapierWorld s);
          w2 = step_world (stepped f) (w1\<lparr>timestep := delta\<rparr>);
          cp = translation (rigidBody w2);
          w3 = (if vy cp < - 5
                then w2\<lparr>rigidBody := (rigidBody w2)\<lparr>translation := spawn_point\<rparr>\<rparr>
                else w2)
      in s\<lparr>rapierWorld := w3, cube_position := cp,
           cube_quaternion := rotation (rigidBody w2)\<rparr>)"

definition confirm_block :: "frame \<Rightarrow> notes_st \<Rightarrow> notes_st" where
  "confirm_block f s =
     (case confirmLoop s of None \<Rightarrow> s | Some r \<Rightarrow> confirm_onFrame f r s)"

text \<open>The frame ends early when the right controller has no ray space.\<close>

definition hide_marker :: "fsys \<Rightarrow> fsys" where
  "hide_marker s = s\<lparr>targetMarker_visible := False\<rparr>"

text \<open>The trigger going down finalizes the placement.\<close>

definition trigger_block :: "controller \<Rightarrow> fsys \<Rightarrow> error option \<times> fsys" where
  "trigger_block c s =
     (case gamepadWrapper c of
        None \<Rightarrow> (None, s)
      | Some g \<Rightarrow> if TRIGGER \<in> down g then finalizeFurniturePosition s else (None, s))"

text \<open>What the trigger leaves behind where the cube and the engine exist.\<close>

definition after_trigger :: "controller \<Rightarrow> fsys \<Rightarrow> fsys" where
  "after_trigger c s =
     (case gamepadWrapper c of
        None \<Rightarrow> s
      | Some g \<Rightarrow> if TRIGGER \<in> down g then finalize_placed s else s)"

text \<open>Hover detection and the three note buttons, in the order of the code.\<close>

definition notes_block :: "host \<Rightarrow> controller \<Rightarrow> frame \<Rightarrow> fsys \<Rightarrow> fsys" where
  "notes_block H c f s =
     s\<lparr>ns := squeeze_block c
                (button1_block c
                   (button2_block H c (floor_hit f) (cube_position s)
                      (hover_block f (ns s))))\<rparr>"

text \<open>The loop of the delete confirmation, driven at the end of the frame.\<close>

definition confirm_loop_block :: "frame \<Rightarrow> fsys \<Rightarrow> fsys" where
  "confirm_loop_block f s = s\<lparr>ns := confirm_block f (ns s)\<rparr>"

text \<open>
  \<^verbatim>\<open>update(delta)\<close>. The result carries the error the frame ends with, if any: the
  thumbstick is read from \<^verbatim>\<open>controller.gamepadWrapper\<close> without a guard, so a
  controller that has a ray space and no gamepad ends the frame there with a TypeError,
  and what the frame did before stays done; a raise of finalize would end it likewise.
  The blocks run in the order of the code; \<open>rest_of_frame\<close> is the frame from
  hover detection on.
\<close>

definition rest_of_frame ::
  "host \<Rightarrow> controller \<Rightarrow> frame \<Rightarrow> real \<Rightarrow> fsys \<Rightarrow> error option \<times> fsys" where
  "rest_of_frame H c f delta s =
     (case gamepadWrapper c of
        None \<Rightarrow> (Some TypeError, target_block (floor_hit f) (notes_block H c f s))
      | Some g \<Rightarrow>
          (None,
           confirm_loop_block f
             (physics_block g delta f (target_block (floor_hit f) (notes_block H c f s)))))"

definition update :: "host \<Rightarrow> frame \<Rightarrow> real \<Rightarrow> fsys \<Rightarrow> error option \<times> fsys" where
  "update H f delta s =
     (if \<not> RAPIER s then (None, s)
      else
        case right f of
          None \<Rightarrow> (None, hide_marker (spawn_block (first_frame H s)))
        | Some c \<Rightarrow>
            if \<not> targetRaySpace c then (None, hide_marker (spawn_block (first_frame H s)))
            else
              (case trigger_block c (spawn_block (first_frame H s)) of
                 (Some e, s3) \<Rightarrow> (Some e, s3)
               | (None, s3) \<Rightarrow> rest_of_frame H c f delta s3))"

text \<open>What can happen to the system, and a run of such events.\<close>

datatype event =
    RapierLoaded real
  | Frame frame real
  | PlaneAdded plane
  | GltfLoaded nat
  | SpawnRequest string
  | InputSave string
  | InputCancel
  | InputRemove

definition apply_event :: "host \<Rightarrow> event \<Rightarrow> fsys \<Rightarrow> fsys" where
  "apply_event H e s =
     (case e of
        RapierLoaded m \<Rightarrow> if RAPIER s then s else rapier_loaded m s
      | Frame f delta \<Rightarrow> snd (update H f delta s)
      | PlaneAdded p \<Rightarrow> if cube_made s then onPlaneAdded p s else s
      | GltfLoaded m \<Rightarrow> gltf_loaded m s
      | SpawnRequest name \<Rightarrow> s\<lparr>furnitureToSpawn := Some name\<rparr>
      | InputSave v \<Rightarrow> s\<lparr>ns := input_save v (ns s)\<rparr>
      | InputCancel \<Rightarrow> s\<lparr>ns := input_cancel (ns s)\<rparr>
      | InputRemove \<Rightarrow> s\<lparr>ns := input_remove (ns s)\<rparr>)"

fun run :: "host \<Rightarrow> event list \<Rightarrow> fsys \<Rightarrow> fsys" where
  "run H [] s = s"
| "run H (e # es) s = run H es (apply_event H e s)"

section \<open>Runs, invariants and sample inputs\<close>

text \<open>
  One step of the note manager: each of the places where a frame or an overlay button
  touches the notes, and the restore of the first frame.
\<close>

inductive note_step :: "host \<Rightarrow> notes_st \<Rightarrow> notes_st \<Rightarrow> bool" for H :: host where
  ns_hover: "note_step H n (hover_block f n)"
| ns_button2: "note_step H n (button2_block H c t cp n)"
| ns_button1: "note_step H n (button1_block c n)"
| ns_squeeze: "note_step H n (squeeze_block c n)"
| ns_confirm: "note_step H n (confirm_block f n)"
| ns_save: "note_step H n (input_save v n)"
| ns_cancel: "note_step H n (input_cancel n)"
| ns_remove: "note_step H n (input_remove n)"
| ns_load: "\<not> notesLoaded n \<Longrightarrow>
            note_step H n ((loadNotesFromStorage H n)\<lparr>notesLoaded := True\<rparr>)"

text \<open>What persists of a note.\<close>

definition note_view :: "note_obj \<Rightarrow> json \<times> string \<times> jvec" where
  "note_view n = (nid n, content n, position n)"

text \<open>
  A note survives the store unchanged when its id is truthy and made of finite numbers
  only, and its position is finite.
\<close>

definition storable :: "note_obj \<Rightarrow> bool" where
  "storable n \<longleftrightarrow> truthy (nid n) \<and> reparse (nid n) = nid n \<and>
     (\<exists>x y z. position n = (Fin x, Fin y, Fin z))"

text \<open>The store is absent or holds what a save of such notes wrote.\<close>

definition clean_store :: "raw option \<Rightarrow> bool" where
  "clean_store st \<longleftrightarrow> st = None \<or>
     (\<exists>xs. (\<forall>x\<in>set xs. storable x) \<and> st = Some (JSON_stringify (JArr (map note_data xs))))"

definition persistable :: "notes_st \<Rightarrow> bool" where
  "persistable n \<longleftrightarrow> (\<forall>x\<in>set (all_notes n). storable x) \<and> clean_store (storage n)"

text \<open>
  Three notes made one after the other; the first and the third get a text through the
  overlay, the overlay of the second is cancelled.
\<close>

definition three_notes :: "host \<Rightarrow> notes_st" where
  "three_notes H =
     input_save ''move rug''
       (createNoteMarker H (fin (- 2, 0, 3)) [] True None
          (input_cancel
             (createNoteMarker H (fin (0, 0, 0)) [] True None
                (input_save ''buy lamp''
                   (createNoteMarker H (fin (1, 0, 1)) [] True None (init_notes None))))))"

text \<open>
  What every reachable state of the note manager satisfies: a pickable belongs to a note
  of the collection, identities are fresh and distinct, a hovered note is in the
  collection and is the one note with a visible label, and no two notes show a label.
\<close>

definition hover_inv :: "notes_st \<Rightarrow> bool" where
  "hover_inv n \<longleftrightarrow>
     owner ` set (notePickables n) \<subseteq> ref ` set (all_notes n) \<and>
     (\<forall>x\<in>set (all_notes n). ref x < built n) \<and>
     distinct (map ref (all_notes n)) \<and>
     (\<forall>h. hoveredNote n = Some h \<longrightarrow>
        h \<in> ref ` set (all_notes n) \<and>
        (\<forall>x\<in>set (all_notes n). root_visible x \<longleftrightarrow> ref x = h)) \<and>
     (\<forall>x\<in>set (all_notes n). \<forall>y\<in>set (all_notes n).
        root_visible x \<and> root_visible y \<longrightarrow> ref x = ref y)"

text \<open>
  A frame in which the ray of the controller meets the floor at (1, 0, 1) and no note,
  and nothing is pressed; and the same frame with one button clicked.
\<close>

definition idle_pad :: gamepad where
  "idle_pad = \<lparr>down = {}, click = {}, thumbstick_x = 0\<rparr>"

definition idle_frame :: frame where
  "idle_frame =
     \<lparr>right = Some \<lparr>targetRaySpace = True, gamepadWrapper = Some idle_pad\<rparr>,
      floor_hit = Some (1, 0, 1), note_hit = None, over_confirm = False, over_cancel = False,
      stepped = ((0, 1/2, 0), identity_quat)\<rparr>"

definition press :: "button \<Rightarrow> frame \<Rightarrow> frame" where
  "press b f =
     f\<lparr>right := Some \<lparr>targetRaySpace = True,
                       gamepadWrapper = Some (idle_pad\<lparr>click := {b}\<rparr>)\<rparr>\<rparr>"

text \<open>
  A session that makes the three notes: the B button with the ray on the floor at
  (1, 0, 1), (0, 0, 0) and (-2, 0, 3), a text saved through the overlay for the first
  and the third, the overlay of the second cancelled.
\<close>

definition three_note_events :: "event list" where
  "three_note_events =
     [RapierLoaded 1,
      Frame (press BUTTON_2 idle_frame) (1/60),
      InputSave ''buy lamp'',
      Frame (press BUTTON_2 (idle_frame\<lparr>floor_hit := Some (0, 0, 0)\<rparr>)) (1/60),
      InputCancel,
      Frame (press BUTTON_2 (idle_frame\<lparr>floor_hit := Some (- 2, 0, 3)\<rparr>)) (1/60),
      InputSave ''move rug'']"

text \<open>
  Two notes are made, at (1, 0, 1) and at (-2, 0, 3), the pointer moves onto the first,
  and the overlay still open for the second is used to delete the second.
\<close>

definition stale_label_events :: "event list" where
  "stale_label_events =
     [RapierLoaded 1,
      Frame (press BUTTON_2 idle_frame) (1/60),
      Frame (press BUTTON_2 (idle_frame\<lparr>floor_hit := Some (- 2, 0, 3)\<rparr>)) (1/60),
      Frame (idle_frame\<lparr>note_hit := Some 0\<rparr>) (1/60),
      InputRemove]"

text \<open>The same events, and then a frame in which the pointer is on no note.\<close>

definition stale_label_away_events :: "event list" where
  "stale_label_away_events = stale_label_events @ [Frame idle_frame (1/60)]"


text \<open>The events up to the moment the pointer rests on the first of two notes.\<close>

definition hover_events :: "event list" where
  "hover_events =
     [RapierLoaded 1,
      Frame (press BUTTON_2 idle_frame) (1/60),
      Frame (press BUTTON_2 (idle_frame\<lparr>floor_hit := Some (- 2, 0, 3)\<rparr>)) (1/60),
      Frame (idle_frame\<lparr>note_hit := Some 0\<rparr>) (1/60)]"


text \<open>A collider made as a floor slab, with its handle.\<close>

definition is_floor :: "nat \<times> collider \<Rightarrow> bool" where
  "is_floor hc \<longleftrightarrow> made_by (snd hc) = FloorSlab"

text \<open>
  Handles are fresh, and the one collider made as a floor slab is the one
  \<^verbatim>\<open>floorCollider\<close> holds.
\<close>

definition floor_inv :: "pworld \<Rightarrow> bool" where
  "floor_inv w \<longleftrightarrow>
     (\<forall>hc\<in>set (colliders w). fst hc < next_handle w) \<and>
     map fst (filter is_floor (colliders w)) = [floorCollider w]"

text \<open>A horizontal plane labelled as the floor, which the probe ray meets at height 1.2.\<close>

definition floor_plane :: plane where
  "floor_plane =
     \<lparr>orientation = Horizontal, semanticLabel = ''floor'', boundingRectangleWidth = 4,
      boundingRectangleHeight = 3, p_position = (0, 6/5, 0), p_quaternion = identity_quat,
      probe = Some (0, 6/5, 0)\<rparr>"

text \<open>The engine has arrived and one frame has run, so the plane callback is installed.\<close>

definition started_events :: "event list" where
  "started_events = [RapierLoaded 1, Frame idle_frame (1/60)]"

text \<open>
  A model is requested and arrives, and the engine leaves the carrying body turned by
  half a turn about the vertical axis.
\<close>

definition carrying_events :: "event list" where
  "carrying_events =
     [RapierLoaded 1,
      SpawnRequest ''chair.glb'',
      Frame idle_frame (1/60),
      GltfLoaded 7,
      Frame (idle_frame\<lparr>stepped := ((0, 1/2, 2), (0, 1, 0, 0))\<rparr>) (1/60)]"

text \<open>A translation impulse among the calls logged.\<close>

definition is_impulse :: "engine_call \<Rightarrow> bool" where
  "is_impulse e = (case e of ApplyImpulse v \<Rightarrow> True | ApplyTorqueImpulse v \<Rightarrow> False | Step d \<Rightarrow> False)"

text \<open>A note is made, then hovered while the B button opens its delete confirmation.\<close>

definition confirm_events :: "event list" where
  "confirm_events =
     [RapierLoaded 1,
      Frame (press BUTTON_2 idle_frame) (1/60),
      Frame ((press BUTTON_2 idle_frame)\<lparr>note_hit := Some 0\<rparr>) (1/60)]"

section \<open>Restoring the persisted notes\<close>

lemma all_notes_save [simp]: "all_notes (saveNotesToStorage s) = all_notes s"
  by (simp add: saveNotesToStorage_def)

lemma built_save [simp]: "built (saveNotesToStorage s) = built s"
  by (simp add: saveNotesToStorage_def)

lemma all_notes_create:
  "all_notes (createNoteMarker H pos c b i s) =
     all_notes s @
       [\<lparr>ref = built s, nid = or_else i (JStr (gen_id H (built s))),
         content = c, position = pos, root_visible = False, torus_scale = 1\<rparr>]"
  by (simp add: createNoteMarker_def Let_def openNoteInput_def)

lemma built_create [simp]: "built (createNoteMarker H pos c b i s) = Suc (built s)"
  by (simp add: createNoteMarker_def Let_def openNoteInput_def)

lemma coord_raise:
  "(\<exists>e. coord H item k = Inl e) \<longleftrightarrow> (\<exists>v. component item k = Some v \<and> unprintable v)"
  unfolding coord_def component_def
  apply (cases "get_index (get_field (Some item) ''position'') k")
   apply simp
  subgoal for v by (cases v) (auto split: sum.splits)
  done

lemma content_raise:
  "(\<exists>e. item_content H item = Inl e) \<longleftrightarrow>
     (\<exists>c. get_field (Some item) ''content'' = Some c \<and> truthy c \<and> unprintable c)"
  by (cases "get_field (Some item) ''content''")
     (auto simp: item_content_def Let_def or_else_def String_js_def)

lemma ex_less_three: "(\<exists>k<3. P k) \<longleftrightarrow> P 0 \<or> P (Suc 0) \<or> P (2::nat)"
proof
  assume "\<exists>k<3. P k"
  then obtain k where k: "k < 3" "P k" by blast
  then have "k = 0 \<or> k = Suc 0 \<or> k = 2" by arith
  with k show "P 0 \<or> P (Suc 0) \<or> P 2" by blast
next
  assume "P 0 \<or> P (Suc 0) \<or> P 2"
  then show "\<exists>k<3. P k"
  proof (elim disjE)
    assume "P 0" then show ?thesis by (intro exI [of _ 0]) simp
  next
    assume "P (Suc 0)" then show ?thesis by (intro exI [of _ "Suc 0"]) simp
  next
    assume "P 2" then show ?thesis by (intro exI [of _ 2]) simp
  qed
qed

lemma raises_iff:
  "raises H item \<longleftrightarrow>
     (\<exists>k<3. \<exists>v. component item k = Some v \<and> unprintable v) \<or>
     (\<exists>c. get_field (Some item) ''content'' = Some c \<and> truthy c \<and> unprintable c)"
proof -
  have "raises H item \<longleftrightarrow>
          (\<exists>e. coord H item 0 = Inl e) \<or> (\<exists>e. coord H item 1 = Inl e) \<or>
          (\<exists>e. coord H item 2 = Inl e) \<or> (\<exists>e. item_content H item = Inl e)"
    by (auto simp: raises_def item_args_def split: sum.splits)
  then show ?thesis
    unfolding coord_raise content_raise ex_less_three by simp
qed

lemma not_raises_args: "\<not> raises H item \<Longrightarrow> \<exists>pos c i. item_args H item = Inr (pos, c, i)"
  by (cases "item_args H item") (auto simp: raises_def)

lemma load_items_stop:
  "rest = [] \<or> raises H (hd rest) \<Longrightarrow> load_items H rest s = s"
  by (cases rest) (auto simp: raises_def split: sum.splits)

lemma load_items_prefix: "\<exists>ys. all_notes (load_items H arr s) = all_notes s @ ys"
proof (induction arr arbitrary: s)
  case Nil
  then show ?case by simp
next
  case (Cons item arr)
  show ?case
  proof (cases "item_args H item")
    case (Inl e)
    then show ?thesis by simp
  next
    case (Inr a)
    obtain pos c i where "a = (pos, c, i)" by (cases a) auto
    with Inr Cons.IH [of "createNoteMarker H pos c False i s"] show ?thesis
      by (auto simp: all_notes_create)
  qed
qed

lemma load_items_length:
  "\<forall>item\<in>set pre. \<not> raises H item \<Longrightarrow> rest = [] \<or> raises H (hd rest) \<Longrightarrow>
   length (all_notes (load_items H (pre @ rest) s)) = length (all_notes s) + length pre"
proof (induction pre arbitrary: s)
  case Nil
  then show ?case by (simp add: load_items_stop)
next
  case (Cons item pre)
  from Cons.prems obtain pos c i where a: "item_args H item = Inr (pos, c, i)"
    using not_raises_args by fastforce
  from Cons.prems have "\<forall>x\<in>set pre. \<not> raises H x" by simp
  from Cons.IH [OF this Cons.prems(2)] a show ?case
    by (simp add: all_notes_create)
qed

lemma load_items_nth:
  "\<forall>item\<in>set pre. \<not> raises H item \<Longrightarrow> rest = [] \<or> raises H (hd rest) \<Longrightarrow>
   k < length pre \<Longrightarrow> item_args H (pre ! k) = Inr (pos, c, i) \<Longrightarrow>
   all_notes (load_items H (pre @ rest) s) ! (length (all_notes s) + k) =
     \<lparr>ref = built s + k,
      nid = or_else i (JStr (gen_id H (built s + k))),
      content = c, position = pos, root_visible = False, torus_scale = 1\<rparr>"
proof (induction pre arbitrary: s k)
  case Nil
  then show ?case by simp
next
  case (Cons item pre)
  from Cons.prems(1) obtain pos0 c0 i0 where a: "item_args H item = Inr (pos0, c0, i0)"
    using not_raises_args by fastforce
  from Cons.prems(1) have rest_ok: "\<forall>x\<in>set pre. \<not> raises H x" by simp
  let ?s1 = "createNoteMarker H pos0 c0 False i0 s"
  have step: "load_items H ((item # pre) @ rest) s = load_items H (pre @ rest) ?s1"
    using a by simp
  show ?case
  proof (cases k)
    case 0
    have len: "length (all_notes (load_items H (pre @ rest) ?s1)) =
                 length (all_notes ?s1) + length pre"
      by (rule load_items_length [OF rest_ok Cons.prems(2)])
    have pre_: "\<exists>ys. all_notes (load_items H (pre @ rest) ?s1) = all_notes ?s1 @ ys"
      by (rule load_items_prefix)
    then obtain ys where ys: "all_notes (load_items H (pre @ rest) ?s1) = all_notes ?s1 @ ys" ..
    from 0 Cons.prems(4) a have "pos0 = pos" "c0 = c" "i0 = i" by simp_all
    then show ?thesis
      unfolding step ys using 0 by (simp add: all_notes_create nth_append)
  next
    case (Suc j)
    with Cons.prems have j: "j < length pre" "item_args H (pre ! j) = Inr (pos, c, i)"
      by simp_all
    from Cons.IH [OF rest_ok Cons.prems(2) j, of ?s1] show ?thesis
      unfolding step using Suc by (simp add: all_notes_create)
  qed
qed

lemma item_args_fields:
  assumes "item_args H item = Inr (pos, c, i)"
  shows "\<forall>j<3. \<forall>v. Number_js H (component item j) = Inr v \<longrightarrow>
            vget pos j = (if v = NaN then Fin 0 else v)"
    and "c = (case get_field (Some item) ''content'' of
                None \<Rightarrow> [] | Some x \<Rightarrow> if truthy x then str_of H x else [])"
    and "i = get_field (Some item) ''id''"
proof -
  from assms obtain x y z where
    xyz: "coord H item 0 = Inr x" "coord H item 1 = Inr y" "coord H item 2 = Inr z"
      "pos = (x, y, z)" and c: "item_content H item = Inr c"
      and i: "i = get_field (Some item) ''id''"
    by (auto simp: item_args_def split: sum.splits)
  have co: "vget pos j = (if v = NaN then Fin 0 else v)"
    if "j < 3" "Number_js H (component item j) = Inr v" for j v
  proof -
    from that(1) have "j = 0 \<or> j = 1 \<or> j = 2" by arith
    with xyz that(2) show ?thesis
      by (auto simp: coord_def component_def or_zero_def)
  qed
  then show "\<forall>j<3. \<forall>v. Number_js H (component item j) = Inr v \<longrightarrow>
            vget pos j = (if v = NaN then Fin 0 else v)" by blast
  from c show "c = (case get_field (Some item) ''content'' of
                None \<Rightarrow> [] | Some x \<Rightarrow> if truthy x then str_of H x else [])"
    by (auto simp: item_content_def Let_def or_else_def String_js_def
             split: option.splits if_splits)
  from i show "i = get_field (Some item) ''id''" .
qed

text \<open>
  C10, as amended. The elements of the stored array are taken in order, and each
  produces a note for as long as converting its position components and its content
  raises no error. The first element whose conversion raises ends the restore: it and
  the elements after it produce no note. For an element that produces a note, a position
  component that is missing or converts to NaN is 0 and any other is the number it
  converts to; the content is the empty string when it is missing or falsy and its
  string conversion otherwise; a stored id that is present and truthy is reused, and a
  missing or falsy one is replaced by a freshly generated id.
\<close>

theorem load_restores_items_until_raise:
  assumes "\<forall>item\<in>set pre. \<not> raises H item" and "rest = [] \<or> raises H (hd rest)"
  shows "(let ns = all_notes (loadNotesFromStorage H
                     (init_notes (Some (RawJson (JArr (pre @ rest))))))
          in length ns = length pre \<and>
             (\<forall>k<length pre.
                (\<forall>j<3. component (pre ! k) j = None \<longrightarrow> vget (position (ns ! k)) j = Fin 0) \<and>
                (\<forall>j<3. \<forall>v. Number_js H (component (pre ! k) j) = Inr v \<longrightarrow>
                   vget (position (ns ! k)) j = (if v = NaN then Fin 0 else v)) \<and>
                content (ns ! k) =
                  (case get_field (Some (pre ! k)) ''content'' of
                     None \<Rightarrow> []
                   | Some c \<Rightarrow> if truthy c then str_of H c else []) \<and>
                nid (ns ! k) =
                  (case get_field (Some (pre ! k)) ''id'' of
                     None \<Rightarrow> JStr (gen_id H k)
                   | Some i \<Rightarrow> if truthy i then i else JStr (gen_id H k))))"
proof -
  let ?s0 = "init_notes (Some (RawJson (JArr (pre @ rest))))"
  have ld: "loadNotesFromStorage H ?s0 = load_items H (pre @ rest) ?s0"
    by (simp add: loadNotesFromStorage_def init_notes_def)
  have s0: "all_notes ?s0 = []" "built ?s0 = 0" by (simp_all add: init_notes_def)
  have len: "length (all_notes (load_items H (pre @ rest) ?s0)) = length pre"
    using load_items_length [OF assms, of ?s0] s0 by simp
  have el: "(\<forall>j<3. component (pre ! k) j = None \<longrightarrow>
               vget (position (all_notes (load_items H (pre @ rest) ?s0) ! k)) j = Fin 0) \<and>
            (\<forall>j<3. \<forall>v. Number_js H (component (pre ! k) j) = Inr v \<longrightarrow>
               vget (position (all_notes (load_items H (pre @ rest) ?s0) ! k)) j =
                 (if v = NaN then Fin 0 else v)) \<and>
            content (all_notes (load_items H (pre @ rest) ?s0) ! k) =
              (case get_field (Some (pre ! k)) ''content'' of
                 None \<Rightarrow> [] | Some c \<Rightarrow> if truthy c then str_of H c else []) \<and>
            nid (all_notes (load_items H (pre @ rest) ?s0) ! k) =
              (case get_field (Some (pre ! k)) ''id'' of
                 None \<Rightarrow> JStr (gen_id H k)
               | Some i \<Rightarrow> if truthy i then i else JStr (gen_id H k))"
    if k: "k < length pre" for k
  proof -
    from k assms(1) have "\<not> raises H (pre ! k)" by simp
    then obtain pos c i where a: "item_args H (pre ! k) = Inr (pos, c, i)"
      using not_raises_args by blast
    have n: "all_notes (load_items H (pre @ rest) ?s0) ! k =
        \<lparr>ref = k, nid = or_else i (JStr (gen_id H k)),
         content = c, position = pos, root_visible = False, torus_scale = 1\<rparr>"
      using load_items_nth [OF assms k a, of ?s0] s0 by simp
    note f = item_args_fields [OF a]
    have miss: "vget pos j = Fin 0" if "j < 3" "component (pre ! k) j = None" for j
      using f(1) that by simp
    show ?thesis
      unfolding n using f(1) f(2) f(3) miss
      by (auto simp: or_else_def split: option.splits)
  qed
  show ?thesis unfolding ld Let_def using len el by blast
qed

text \<open>
  C10 as stated fails: the first element of this stored array has a content that cannot
  be converted to a string, the error ends the restore, and neither that element nor
  the well-formed one after it produces a note.
\<close>

theorem load_stops_at_raise_counterexample:
  "all_notes (loadNotesFromStorage sample_host
     (init_notes (Some (RawJson (JArr
        [JObj [(''content'', JObj [(''toString'', JNull)])],
         JObj [(''content'', JStr ''move rug'')]]))))) = []"
  by (simp add: loadNotesFromStorage_def init_notes_def item_args_def coord_def
        item_content_def or_else_def String_js_def or_zero_def)

text \<open>
  The amended C10 at a stored array of three elements: the first has a position with a
  numeric, a non-numeric and a missing component, the second is \<^verbatim>\<open>null\<close>, the
  third raises.
\<close>

theorem load_restores_items_until_raise_witness:
  "\<not> raises sample_host
        (JObj [(''position'', JArr [JNum (Fin 2), JStr ''x'']), (''id'', JStr ''a'')]) \<and>
   \<not> raises sample_host JNull \<and>
   raises sample_host (hd [JObj [(''content'', JObj [(''toString'', JNull)])]]) \<and>
   map (\<lambda>n. (nid n, content n, position n))
     (all_notes (loadNotesFromStorage sample_host
        (init_notes (Some (RawJson (JArr
          ([JObj [(''position'', JArr [JNum (Fin 2), JStr ''x'']), (''id'', JStr ''a'')],
            JNull] @
           [JObj [(''content'', JObj [(''toString'', JNull)])]]))))))) =
     [(JStr ''a'', [], (Fin 2, Fin 0, Fin 0)),
      (JStr (gen_id sample_host 1), [], (Fin 0, Fin 0, Fin 0))]"
proof -
  let ?pre = "[JObj [(''position'', JArr [JNum (Fin 2), JStr ''x'']), (''id'', JStr ''a'')],
               JNull]"
  let ?rest = "[JObj [(''content'', JObj [(''toString'', JNull)])]]"
  have h1: "\<forall>item\<in>set ?pre. \<not> raises sample_host item"
    by (simp add: raises_def item_args_def coord_def item_content_def or_else_def
          String_js_def or_zero_def sample_host_def)
  have h2: "raises sample_host (hd ?rest)"
    by (simp add: raises_def item_args_def coord_def item_content_def or_else_def
          String_js_def or_zero_def sample_host_def)
  from h2 have h2': "?rest = [] \<or> raises sample_host (hd ?rest)" by simp
  note t = load_restores_items_until_raise [OF h1 h2']
  have "map (\<lambda>n. (nid n, content n, position n))
     (all_notes (loadNotesFromStorage sample_host
        (init_notes (Some (RawJson (JArr (?pre @ ?rest))))))) =
     [(JStr ''a'', [], (Fin 2, Fin 0, Fin 0)),
      (JStr (gen_id sample_host 1), [], (Fin 0, Fin 0, Fin 0))]"
    by (simp add: loadNotesFromStorage_def init_notes_def item_args_def coord_def
        item_content_def or_else_def String_js_def or_zero_def sample_host_def
        createNoteMarker_def saveNotesToStorage_def Let_def)
  with h1 h2 t show ?thesis by simp
qed

section \<open>How the events reach the notes\<close>

text \<open>
  A frame runs only once the engine has arrived and builds the cube before it reads the
  trigger, so finalize never raises inside a frame, and the frame is the composition of
  its blocks.
\<close>

lemma finalize_placed_eq:
  "finalize_placed s =
     (case furnitureModel s of
        None \<Rightarrow> s
      | Some m \<Rightarrow>
          let w = rapierWorld s;
              fixedRigidBody =
                \<lparr>dynamic = False, translation = translation (rigidBody w),
                 rotation = rotation (rigidBody w), linvel = Some (0, 0, 0),
                 angvel = Some (0, 0, 0), mass = 0\<rparr>;
              w1 = w\<lparr>fixed_bodies := fixed_bodies w @ [fixedRigidBody]\<rparr>;
              w2 = createCollider
                     ((cuboid Placed (1/2, 1/2, 1/2))
                        \<lparr>friction := Some (1/2),
                         attached_to := Some (FixedBody (length (fixed_bodies w)))\<rparr>) w1;
              w3 = w2\<lparr>rigidBody := (rigidBody w2)\<lparr>translation := spawn_point,
                                                linvel := Some (0, 0, 0),
                                                angvel := Some (0, 0, 0)\<rparr>\<rparr>
          in s\<lparr>scene_furniture :=
                 scene_furniture s @
                   [(m, True,
                     attach_to_scene (cube_position s, cube_quaternion s) (model_local s))],
               furnitureModel := None, rapierWorld := w3\<rparr>)"
  by (simp add: finalize_placed_def fix_in_place_def detach_model_def Let_def
      split: option.splits)

lemma finalize_made:
  "cube_made s \<Longrightarrow> RAPIER s \<Longrightarrow> finalizeFurniturePosition s = (None, finalize_placed s)"
  by (simp add: finalizeFurniturePosition_def finalize_placed_def split: option.splits)

lemma made_before_trigger:
  "cube_made (spawn_block (first_frame H s))"
  "RAPIER (spawn_block (first_frame H s)) = RAPIER s"
  by (simp_all add: spawn_block_def first_frame_def split: option.splits)

lemma trigger_block_made:
  "cube_made s \<Longrightarrow> RAPIER s \<Longrightarrow> trigger_block c s = (None, after_trigger c s)"
  by (simp add: trigger_block_def after_trigger_def finalize_made split: option.splits)

lemma update_made:
  "update H f delta s =
     (if \<not> RAPIER s then (None, s)
      else
        case right f of
          None \<Rightarrow> (None, hide_marker (spawn_block (first_frame H s)))
        | Some c \<Rightarrow>
            if \<not> targetRaySpace c then (None, hide_marker (spawn_block (first_frame H s)))
            else
              (case gamepadWrapper c of
                 None \<Rightarrow>
                   (Some TypeError,
                    target_block (floor_hit f)
                      (notes_block H c f (after_trigger c (spawn_block (first_frame H s)))))
               | Some g \<Rightarrow>
                   (None,
                    confirm_loop_block f
                      (physics_block g delta f
                         (target_block (floor_hit f)
                            (notes_block H c f
                               (after_trigger c (spawn_block (first_frame H s)))))))))"
  by (simp add: update_def rest_of_frame_def trigger_block_made made_before_trigger
      split: option.splits)

lemma ns_finalize [simp]: "ns (finalize_placed s) = ns s"
  by (simp add: finalize_placed_eq Let_def split: option.splits)

lemma ns_spawn_block [simp]: "ns (spawn_block s) = ns s"
  by (simp add: spawn_block_def split: option.splits)

lemma ns_target_block [simp]: "ns (target_block t s) = ns s"
  by (simp add: target_block_def Let_def split: option.splits)

lemma ns_physics_block [simp]: "ns (physics_block g d f s) = ns s"
  by (simp add: physics_block_def Let_def)

lemma ns_onPlaneAdded [simp]: "ns (onPlaneAdded p s) = ns s"
  by (simp add: onPlaneAdded_def Let_def split: option.splits)

lemma ns_gltf_loaded [simp]: "ns (gltf_loaded m s) = ns s"
  by (simp add: gltf_loaded_def split: list.splits)

lemma ns_first_frame:
  "ns (first_frame H s) =
     (if cube_made s \<or> notesLoaded (ns s) then ns s
      else (loadNotesFromStorage H (ns s))\<lparr>notesLoaded := True\<rparr>)"
  by (simp add: first_frame_def)

lemma first_frame_steps: "(note_step H)\<^sup>*\<^sup>* (ns s) (ns (first_frame H s))"
  by (auto simp: ns_first_frame intro: ns_load)

lemma cube_position_finalize [simp]:
  "cube_position (finalize_placed s) = cube_position s"
  by (simp add: finalize_placed_eq Let_def split: option.splits)

lemma cube_position_spawn_block [simp]: "cube_position (spawn_block s) = cube_position s"
  by (simp add: spawn_block_def split: option.splits)

lemma ns_hide_marker [simp]: "ns (hide_marker s) = ns s"
  by (simp add: hide_marker_def)

lemma ns_after_trigger [simp]: "ns (after_trigger c s) = ns s"
  by (simp add: after_trigger_def split: option.splits)

lemma ns_notes_block:
  "ns (notes_block H c f s) =
     squeeze_block c
       (button1_block c
          (button2_block H c (floor_hit f) (cube_position s) (hover_block f (ns s))))"
  by (simp add: notes_block_def)

lemma ns_confirm_loop_block [simp]: "ns (confirm_loop_block f s) = confirm_block f (ns s)"
  by (simp add: confirm_loop_block_def)

lemma cube_position_after_trigger [simp]:
  "cube_position (after_trigger c s) = cube_position s"
  by (simp add: after_trigger_def split: option.splits)

lemma ns_update:
  "ns (snd (update H f delta s)) =
     (if \<not> RAPIER s then ns s
      else case right f of
             None \<Rightarrow> ns (first_frame H s)
           | Some c \<Rightarrow>
               if \<not> targetRaySpace c then ns (first_frame H s)
               else (case gamepadWrapper c of
                       None \<Rightarrow>
                         squeeze_block c
                           (button1_block c
                              (button2_block H c (floor_hit f) (cube_position (first_frame H s))
                                 (hover_block f (ns (first_frame H s)))))
                     | Some g \<Rightarrow>
                         confirm_block f
                           (squeeze_block c
                              (button1_block c
                                 (button2_block H c (floor_hit f)
                                    (cube_position (first_frame H s))
                                    (hover_block f (ns (first_frame H s))))))))"
  by (simp add: update_made ns_notes_block split: option.splits)

lemma blocks_steps:
  "(note_step H)\<^sup>*\<^sup>* n
     (squeeze_block c (button1_block c (button2_block H c t cp (hover_block f n))))"
proof -
  have "note_step H n (hover_block f n)" by (rule ns_hover)
  moreover have "note_step H (hover_block f n) (button2_block H c t cp (hover_block f n))"
    by (rule ns_button2)
  moreover have "note_step H (button2_block H c t cp (hover_block f n))
                   (button1_block c (button2_block H c t cp (hover_block f n)))"
    by (rule ns_button1)
  moreover have "note_step H (button1_block c (button2_block H c t cp (hover_block f n)))
       (squeeze_block c (button1_block c (button2_block H c t cp (hover_block f n))))"
    by (rule ns_squeeze)
  ultimately show ?thesis by (meson rtranclp.rtrancl_into_rtrancl rtranclp.rtrancl_refl)
qed

lemma update_steps: "(note_step H)\<^sup>*\<^sup>* (ns s) (ns (snd (update H f delta s)))"
proof -
  let ?n0 = "ns (first_frame H s)"
  have a: "(note_step H)\<^sup>*\<^sup>* (ns s) ?n0" by (rule first_frame_steps)
  have b: "(note_step H)\<^sup>*\<^sup>* (ns s)
             (squeeze_block c (button1_block c (button2_block H c t cp (hover_block f ?n0))))"
    for c t cp
    using a blocks_steps [of H ?n0 c t cp f] by (rule rtranclp_trans)
  have c: "(note_step H)\<^sup>*\<^sup>* (ns s)
             (confirm_block f
                (squeeze_block c (button1_block c (button2_block H c t cp (hover_block f ?n0)))))"
    for c t cp
    using b [of c t cp] ns_confirm by (rule rtranclp.rtrancl_into_rtrancl)
  show ?thesis
    unfolding ns_update using a b c by (simp split: option.splits)
qed

lemma event_steps: "(note_step H)\<^sup>*\<^sup>* (ns s) (ns (apply_event H e s))"
proof (cases e)
  case (Frame f d)
  then show ?thesis by (simp add: apply_event_def update_steps)
next
  case (InputSave v)
  then show ?thesis by (auto simp: apply_event_def intro: ns_save)
next
  case InputCancel
  then show ?thesis by (auto simp: apply_event_def intro: ns_cancel)
next
  case InputRemove
  then show ?thesis by (auto simp: apply_event_def intro: ns_remove)
qed (simp_all add: apply_event_def rapier_loaded_def)

lemma run_steps: "(note_step H)\<^sup>*\<^sup>* (ns s) (ns (run H es s))"
proof (induction es arbitrary: s)
  case Nil
  then show ?case by simp
next
  case (Cons e es)
  from event_steps [of H s e] Cons.IH [of "apply_event H e s"] show ?case by simp
qed

lemma steps_invariant:
  assumes "(note_step H)\<^sup>*\<^sup>* n n'" and "P n"
    and "\<And>a b. P a \<Longrightarrow> note_step H a b \<Longrightarrow> P b"
  shows "P n'"
  using assms(1,2) by (induction rule: rtranclp_induct) (auto intro: assms(3))

section \<open>The persisted round trip\<close>

lemma item_args_note_data:
  assumes "storable n"
  shows "item_args H (reparse (note_data n)) = Inr (position n, content n, Some (nid n))"
proof -
  from assms obtain x y z where p: "position n = (Fin x, Fin y, Fin z)"
    and t: "truthy (nid n)" and r: "reparse (nid n) = nid n"
    by (auto simp: storable_def)
  have c: "\<And>k v. Number_js H (Some (JNum (Fin v))) = Inr (Fin v)" by simp
  show ?thesis using p r
    by (cases "content n = []")
       (simp_all add: item_args_def coord_def note_data_def item_content_def Let_def
          or_else_def String_js_def or_zero_def)
qed

lemma load_items_round_trip:
  "\<forall>n\<in>set xs. storable n \<Longrightarrow>
   map note_view (all_notes (load_items H (map (\<lambda>n. reparse (note_data n)) xs) s)) =
     map note_view (all_notes s) @ map note_view xs"
proof (induction xs arbitrary: s)
  case Nil
  then show ?case by simp
next
  case (Cons n xs)
  then have n: "storable n" and xs: "\<forall>n\<in>set xs. storable n" by simp_all
  from n have t: "truthy (nid n)" by (simp add: storable_def)
  show ?case
    using Cons.IH [OF xs] item_args_note_data [OF n, of H] t
    by (simp add: all_notes_create or_else_def note_view_def)
qed

lemma storable_cong:
  "nid a = nid b \<Longrightarrow> position a = position b \<Longrightarrow> storable a = storable b"
  by (simp add: storable_def)

lemma gen_id_nonempty: "gen_id H k \<noteq> []"
  by (simp add: gen_id_def)

lemma persistable_save:
  "\<forall>x\<in>set (all_notes s). storable x \<Longrightarrow> persistable (saveNotesToStorage s)"
  unfolding persistable_def clean_store_def
  by (auto simp: saveNotesToStorage_def)

lemma persistable_fields:
  "persistable s \<Longrightarrow> all_notes s' = all_notes s \<Longrightarrow> storage s' = storage s \<Longrightarrow>
   persistable s'"
  by (simp add: persistable_def)

lemma persistable_create:
  assumes "persistable s" and "\<exists>x y z. pos = (Fin x, Fin y, Fin z)"
    and "\<And>v. i = Some v \<Longrightarrow> truthy v \<Longrightarrow> reparse v = v"
  shows "persistable (createNoteMarker H pos c b i s)"
proof -
  let ?n = "\<lparr>ref = built s, nid = or_else i (JStr (gen_id H (built s))),
         content = c, position = pos, root_visible = False, torus_scale = 1\<rparr>"
  have "storable ?n"
    using assms(2,3) by (auto simp: storable_def or_else_def gen_id_nonempty split: option.splits)
  with assms(1) have all: "\<forall>x\<in>set (all_notes (createNoteMarker H pos c b i s)). storable x"
    by (auto simp: all_notes_create persistable_def)
  have st: "storage (createNoteMarker H pos c b i s) =
        Some (JSON_stringify (JArr (map note_data (all_notes (createNoteMarker H pos c b i s)))))"
    by (simp add: createNoteMarker_def Let_def saveNotesToStorage_def openNoteInput_def)
  show ?thesis
    unfolding persistable_def clean_store_def using all st by blast
qed

lemma persistable_remove: "persistable s \<Longrightarrow> persistable (removeNote r s)"
proof (cases r)
  case None
  assume "persistable s"
  with None show ?thesis by (simp add: removeNote_def)
next
  case (Some k)
  assume "persistable s"
  then have "\<forall>x\<in>set (filter (\<lambda>n. ref n \<noteq> k) (all_notes s)). storable x"
    by (simp add: persistable_def)
  then have "persistable (saveNotesToStorage
            (s\<lparr>notePickables := filter (\<lambda>p. owner p \<noteq> k) (notePickables s),
               all_notes := filter (\<lambda>n. ref n \<noteq> k) (all_notes s),
               hoveredNote := None\<rparr>))"
    by (intro persistable_save) simp
  with Some show ?thesis by (simp add: removeNote_def)
qed

lemma persistable_hover: "persistable s \<Longrightarrow> persistable (hover_block f s)"
  by (auto simp: persistable_def hover_block_def Let_def storable_def)

lemma persistable_open_confirm: "persistable s \<Longrightarrow> persistable (openDeleteConfirm r s)"
  by (simp add: persistable_def openDeleteConfirm_def)

lemma persistable_open_input: "persistable s \<Longrightarrow> persistable (openNoteInput r s)"
  by (simp add: persistable_def openNoteInput_def)

lemma persistable_cleanup: "persistable s \<Longrightarrow> persistable (cleanup s)"
  by (simp add: persistable_def cleanup_def)

lemma persistable_button2: "persistable s \<Longrightarrow> persistable (button2_block H c t cp s)"
  by (auto simp: button2_block_def fin_def or_else_def
      intro: persistable_open_confirm persistable_create split: option.splits)

lemma persistable_button1: "persistable s \<Longrightarrow> persistable (button1_block c s)"
  by (auto simp: button1_block_def intro: persistable_open_input split: option.splits)

lemma persistable_squeeze: "persistable s \<Longrightarrow> persistable (squeeze_block c s)"
  by (auto simp: squeeze_block_def intro: persistable_remove split: option.splits)

lemma persistable_confirm: "persistable s \<Longrightarrow> persistable (confirm_block f s)"
  by (auto simp: confirm_block_def confirm_onFrame_def
      intro: persistable_remove persistable_cleanup split: option.splits)

lemma persistable_input_save: "persistable s \<Longrightarrow> persistable (input_save v s)"
proof (cases "activeNoteInput s")
  case None
  assume "persistable s"
  with None show ?thesis by (simp add: input_save_def)
next
  case (Some r)
  assume "persistable s"
  then have "persistable (saveNotesToStorage
       (s\<lparr>all_notes := map (\<lambda>n. if ref n = r then n\<lparr>content := trim v\<rparr> else n) (all_notes s)\<rparr>))"
    by (intro persistable_save) (auto simp: persistable_def storable_def)
  then show ?thesis using Some by (simp add: input_save_def persistable_def)
qed

lemma persistable_input_cancel: "persistable s \<Longrightarrow> persistable (input_cancel s)"
  by (simp add: persistable_def input_cancel_def)

lemma persistable_input_remove: "persistable s \<Longrightarrow> persistable (input_remove s)"
proof (cases "activeNoteInput s")
  case None
  assume "persistable s"
  with None show ?thesis by (simp add: input_remove_def)
next
  case (Some r)
  assume "persistable s"
  then have "persistable (removeNote (Some r) s)" by (rule persistable_remove)
  then show ?thesis using Some by (simp add: input_remove_def persistable_def)
qed

lemma persistable_load_items:
  "persistable s \<Longrightarrow> \<forall>x\<in>set xs. storable x \<Longrightarrow>
   persistable (load_items H (map (\<lambda>n. reparse (note_data n)) xs) s)"
proof (induction xs arbitrary: s)
  case Nil
  then show ?case by simp
next
  case (Cons n xs)
  then have n: "storable n" and xs: "\<forall>x\<in>set xs. storable x" by simp_all
  from n have "persistable (createNoteMarker H (position n) (content n) False (Some (nid n)) s)"
    by (intro persistable_create [OF Cons.prems(1)]) (auto simp: storable_def)
  from Cons.IH [OF this xs] show ?case
    by (simp add: item_args_note_data [OF n])
qed

lemma persistable_load: "persistable s \<Longrightarrow> persistable (loadNotesFromStorage H s)"
proof -
  assume p: "persistable s"
  then consider "storage s = None"
    | xs where "\<forall>x\<in>set xs. storable x"
        "storage s = Some (JSON_stringify (JArr (map note_data xs)))"
    by (auto simp: persistable_def clean_store_def)
  then show ?thesis
  proof cases
    case 1
    with p show ?thesis by (simp add: loadNotesFromStorage_def)
  next
    case 2
    have "loadNotesFromStorage H s = load_items H (map (\<lambda>n. reparse (note_data n)) xs) s"
      using 2(2) by (simp add: loadNotesFromStorage_def JSON_stringify_def comp_def)
    with persistable_load_items [OF p 2(1)] show ?thesis by simp
  qed
qed

lemma persistable_step:
  assumes "note_step H a b" and "persistable a"
  shows "persistable b"
  using assms
proof (cases rule: note_step.cases)
  case ns_load
  from persistable_load [OF assms(2), of H] show ?thesis
    unfolding ns_load(1) by (simp add: persistable_def)
qed (simp_all add: persistable_hover persistable_button2 persistable_button1
       persistable_squeeze persistable_confirm persistable_input_save
       persistable_input_cancel persistable_input_remove)

lemma persistable_init: "persistable (init_notes None)"
  by (simp add: persistable_def clean_store_def init_notes_def)

lemma persistable_run: "persistable (ns (run H es (init_sys None)))"
proof (rule steps_invariant [OF run_steps, where P = persistable])
  show "persistable (ns (init_sys None))" by (simp add: init_sys_def persistable_init)
  show "\<And>a b. persistable a \<Longrightarrow> note_step H a b \<Longrightarrow> persistable b"
    by (rule persistable_step)
qed

lemma round_trip_storable:
  assumes "\<forall>x\<in>set (all_notes s). storable x"
  shows "map note_view (all_notes (loadNotesFromStorage H
           (init_notes (storage (saveNotesToStorage s))))) = map note_view (all_notes s)"
proof -
  have "loadNotesFromStorage H (init_notes (storage (saveNotesToStorage s))) =
        load_items H (map (\<lambda>n. reparse (note_data n)) (all_notes s))
          (init_notes (storage (saveNotesToStorage s)))"
    by (simp add: loadNotesFromStorage_def saveNotesToStorage_def JSON_stringify_def
          init_notes_def comp_def)
  with load_items_round_trip [OF assms] show ?thesis
    by (simp add: init_notes_def)
qed

text \<open>
  C1. Take the notes of any state the system reaches from a first start with nothing
  stored, whatever frames, planes, loads and overlay clicks led there. Saving them and
  restoring from the store into the empty state of a new session gives the same number
  of notes, in the same order, each with the id, the content and the position it had.
  And any list of notes with finite positions and ids that survive the store, once
  serialized as the save does, is restored into the empty state as it was: as many
  notes, in the same order, with the same ids, contents and positions.
\<close>

theorem persisted_round_trip:
  "map note_view
     (all_notes (loadNotesFromStorage H'
        (init_notes (storage (saveNotesToStorage (ns (run H es (init_sys None)))))))) =
   map note_view (all_notes (ns (run H es (init_sys None)))) \<and>
   ((\<forall>x\<in>set xs. storable x) \<longrightarrow>
      storage (saveNotesToStorage (s\<lparr>all_notes := xs\<rparr>)) =
        Some (JSON_stringify (JArr (map note_data xs))) \<and>
      map note_view
        (all_notes (loadNotesFromStorage H'
           (init_notes (Some (JSON_stringify (JArr (map note_data xs))))))) =
      map note_view xs)"
proof -
  have a: "map note_view
     (all_notes (loadNotesFromStorage H'
        (init_notes (storage (saveNotesToStorage (ns (run H es (init_sys None)))))))) =
   map note_view (all_notes (ns (run H es (init_sys None))))"
    using persistable_run [of H es] by (intro round_trip_storable) (simp add: persistable_def)
  have b: "storage (saveNotesToStorage (s\<lparr>all_notes := xs\<rparr>)) =
        Some (JSON_stringify (JArr (map note_data xs)))"
    by (simp add: saveNotesToStorage_def)
  have c: "map note_view
        (all_notes (loadNotesFromStorage H'
           (init_notes (Some (JSON_stringify (JArr (map note_data xs))))))) =
      map note_view xs" if "\<forall>x\<in>set xs. storable x"
    using round_trip_storable [of "s\<lparr>all_notes := xs\<rparr>" H'] that by (simp add: b)
  from a b c show ?thesis by blast
qed

lemma strip_none:
  "find (\<lambda>w. w \<noteq> [] \<and> take (length w) s = w) ws = None \<Longrightarrow> strip ws s = s"
  by (subst strip.simps) simp

lemma trim_none:
  assumes "find (\<lambda>w. w \<noteq> [] \<and> take (length w) s = w) white_space = None"
    and "find (\<lambda>w. w \<noteq> [] \<and> take (length w) (rev s) = w) (map rev white_space) = None"
  shows "trim s = s"
  by (simp only: trim_def strip_none [OF assms(1)] strip_none [OF assms(2)] rev_rev_ident)

lemma trim_examples: "trim ''buy lamp'' = ''buy lamp''" "trim ''move rug'' = ''move rug''"
  by (rule trim_none; simp add: white_space_def)+

text \<open>
  White space of either kind goes from both ends: a space and a no-break space before
  the text, a byte-order mark and a line feed after it.
\<close>

lemma trim_strips_unicode_space:
  "trim [CHR 0x20, CHR 0xC2, CHR 0xA0, CHR ''a'', CHR 0xEF, CHR 0xBB, CHR 0xBF, CHR 0x0A] = ''a''"
  "trim [CHR 0xC2, CHR 0xA0] = []"
  by (simp_all add: trim_def white_space_def strip.simps [of _ "_ # _"]
        strip.simps [of _ "[]"])

lemma three_notes_views:
  "map note_view (all_notes (three_notes H)) =
     [(JStr (gen_id H 0), ''buy lamp'', (Fin 1, Fin 0, Fin 1)),
      (JStr (gen_id H 1), [], (Fin 0, Fin 0, Fin 0)),
      (JStr (gen_id H 2), ''move rug'', (Fin (- 2), Fin 0, Fin 3))]"
  by (simp add: three_notes_def input_save_def input_cancel_def createNoteMarker_def
        saveNotesToStorage_def openNoteInput_def init_notes_def Let_def or_else_def
        note_view_def fin_def trim_examples numeral_2_eq_2)

text \<open>
  The notes ``buy lamp'', the empty note and ``move rug'' at (1,0,1), (0,0,0) and
  (-2,0,3) come back from the store with their ids, contents and positions.
\<close>

lemma three_notes_round_trip:
  "map note_view (all_notes (loadNotesFromStorage H'
      (init_notes (storage (three_notes H))))) =
     [(JStr (gen_id H 0), ''buy lamp'', (Fin 1, Fin 0, Fin 1)),
      (JStr (gen_id H 1), [], (Fin 0, Fin 0, Fin 0)),
      (JStr (gen_id H 2), ''move rug'', (Fin (- 2), Fin 0, Fin 3))]"
  by (simp add: three_notes_def input_save_def input_cancel_def createNoteMarker_def
        saveNotesToStorage_def openNoteInput_def init_notes_def Let_def or_else_def
        note_view_def fin_def trim_examples loadNotesFromStorage_def JSON_stringify_def
        note_data_def item_args_def coord_def item_content_def String_js_def or_zero_def
        gen_id_nonempty numeral_2_eq_2)

section \<open>The hover slot and the labels\<close>

lemma hover_inv_init: "hover_inv (init_notes st)"
  by (simp add: hover_inv_def init_notes_def)

lemma hover_invI:
  assumes "owner ` set (notePickables n) \<subseteq> ref ` set (all_notes n)"
    and "\<forall>x\<in>set (all_notes n). ref x < built n"
    and "distinct (map ref (all_notes n))"
    and "\<And>h. hoveredNote n = Some h \<Longrightarrow> h \<in> ref ` set (all_notes n)"
    and "\<And>h x. hoveredNote n = Some h \<Longrightarrow> x \<in> set (all_notes n) \<Longrightarrow>
           root_visible x \<longleftrightarrow> ref x = h"
    and "\<And>x y. x \<in> set (all_notes n) \<Longrightarrow> y \<in> set (all_notes n) \<Longrightarrow>
           root_visible x \<Longrightarrow> root_visible y \<Longrightarrow> ref x = ref y"
  shows "hover_inv n"
  unfolding hover_inv_def using assms by blast

lemma hover_invD:
  assumes "hover_inv n"
  shows "owner ` set (notePickables n) \<subseteq> ref ` set (all_notes n)"
    and "\<forall>x\<in>set (all_notes n). ref x < built n"
    and "distinct (map ref (all_notes n))"
    and "\<And>h. hoveredNote n = Some h \<Longrightarrow> h \<in> ref ` set (all_notes n)"
    and "\<And>h x. hoveredNote n = Some h \<Longrightarrow> x \<in> set (all_notes n) \<Longrightarrow>
           root_visible x \<longleftrightarrow> ref x = h"
    and "\<And>x y. x \<in> set (all_notes n) \<Longrightarrow> y \<in> set (all_notes n) \<Longrightarrow>
           root_visible x \<Longrightarrow> root_visible y \<Longrightarrow> ref x = ref y"
  using assms unfolding hover_inv_def by blast+

lemma create_fields:
  "notePickables (createNoteMarker H pos c b i s) =
     notePickables s @ map (\<lambda>p. \<lparr>part = p, owner = built s\<rparr>) [Sphere, Torus, Bar, Dot]"
  "hoveredNote (createNoteMarker H pos c b i s) = hoveredNote s"
  by (simp_all add: createNoteMarker_def Let_def saveNotesToStorage_def openNoteInput_def)

lemma hover_inv_create:
  assumes inv: "hover_inv s"
  shows "hover_inv (createNoteMarker H pos c b i s)"
proof (rule hover_invI)
  note d = hover_invD [OF inv]
  let ?s' = "createNoteMarker H pos c b i s"
  have fresh: "built s \<notin> ref ` set (all_notes s)" using d(2) by auto
  show "owner ` set (notePickables ?s') \<subseteq> ref ` set (all_notes ?s')"
    using d(1) by (auto simp: create_fields all_notes_create)
  show "\<forall>x\<in>set (all_notes ?s'). ref x < built ?s'"
    using d(2) by (auto simp: all_notes_create less_Suc_eq)
  show "distinct (map ref (all_notes ?s'))"
    using d(3) fresh by (simp add: all_notes_create)
  show "h \<in> ref ` set (all_notes ?s')" if "hoveredNote ?s' = Some h" for h
    using d(4) [of h] that by (simp add: create_fields all_notes_create)
  show "root_visible x \<longleftrightarrow> ref x = h"
    if "hoveredNote ?s' = Some h" "x \<in> set (all_notes ?s')" for h x
  proof -
    from that(1) have h: "hoveredNote s = Some h" by (simp add: create_fields)
    from d(4) [OF h] fresh have "h \<noteq> built s" by blast
    with that(2) d(5) [OF h] show ?thesis by (auto simp: all_notes_create)
  qed
  show "ref x = ref y"
    if "x \<in> set (all_notes ?s')" "y \<in> set (all_notes ?s')" "root_visible x" "root_visible y"
    for x y
    using that d(6) [of x y] by (auto simp: all_notes_create)
qed

lemma remove_fields:
  "all_notes (removeNote (Some r) s) = filter (\<lambda>n. ref n \<noteq> r) (all_notes s)"
  "notePickables (removeNote (Some r) s) = filter (\<lambda>p. owner p \<noteq> r) (notePickables s)"
  "hoveredNote (removeNote (Some r) s) = None"
  "built (removeNote (Some r) s) = built s"
  "storage (removeNote (Some r) s) =
     Some (JSON_stringify (JArr (map note_data (filter (\<lambda>n. ref n \<noteq> r) (all_notes s)))))"
  by (simp_all add: removeNote_def saveNotesToStorage_def)

lemma hover_inv_remove:
  assumes inv: "hover_inv s"
  shows "hover_inv (removeNote r s)"
proof (cases r)
  case None
  with inv show ?thesis by (simp add: removeNote_def)
next
  case (Some k)
  note d = hover_invD [OF inv]
  show ?thesis unfolding Some
  proof (rule hover_invI)
    show "owner ` set (notePickables (removeNote (Some k) s))
            \<subseteq> ref ` set (all_notes (removeNote (Some k) s))"
      using d(1) by (auto simp: remove_fields)
    show "\<forall>x\<in>set (all_notes (removeNote (Some k) s)). ref x < built (removeNote (Some k) s)"
      using d(2) by (simp add: remove_fields)
    show "distinct (map ref (all_notes (removeNote (Some k) s)))"
      using d(3) by (simp add: remove_fields distinct_map_filter)
    show "ref x = ref y"
      if "x \<in> set (all_notes (removeNote (Some k) s))"
        "y \<in> set (all_notes (removeNote (Some k) s))" "root_visible x" "root_visible y"
      for x y
      using that d(6) [of x y] by (simp add: remove_fields)
  qed (simp_all add: remove_fields)
qed

lemma hovered_now_owner:
  "hovered_now f s = Some h \<Longrightarrow> h \<in> owner ` set (notePickables s)"
  by (auto simp: hovered_now_def split: if_splits option.splits)

lemma hover_block_notes:
  "all_notes (hover_block f s) =
     (if hoveredNote s = hovered_now f s then all_notes s
      else map (\<lambda>n. n\<lparr>torus_scale :=
                        (if Some (ref n) = hovered_now f s then 115 / 100
                         else if Some (ref n) = hoveredNote s then 1 else torus_scale n),
                      root_visible := (Some (ref n) = hovered_now f s)\<rparr>) (all_notes s))"
proof (cases "hoveredNote s = hovered_now f s")
  case True
  then show ?thesis by (simp add: hover_block_def Let_def)
next
  case False
  have "all_notes (hover_block f s) =
      map (\<lambda>n. if Some (ref n) = hovered_now f s
                         then n\<lparr>torus_scale := 115 / 100, root_visible := True\<rparr> else n)
                  (map (\<lambda>n. n\<lparr>root_visible := False\<rparr>)
                     (map (\<lambda>n. if Some (ref n) = hoveredNote s
                               then n\<lparr>torus_scale := 1\<rparr> else n)
                        (all_notes s)))"
    using False by (simp add: hover_block_def Let_def)
  also have "\<dots> = map (\<lambda>n. n\<lparr>torus_scale :=
                        (if Some (ref n) = hovered_now f s then 115 / 100
                         else if Some (ref n) = hoveredNote s then 1 else torus_scale n),
                      root_visible := (Some (ref n) = hovered_now f s)\<rparr>) (all_notes s)"
    unfolding map_map by (rule map_cong [OF refl]) simp
  finally show ?thesis using False by simp
qed

lemma hover_block_fields:
  "hoveredNote (hover_block f s) = hovered_now f s"
  "notePickables (hover_block f s) = notePickables s"
  "built (hover_block f s) = built s"
  "storage (hover_block f s) = storage s"
  by (auto simp: hover_block_def Let_def)

lemma hover_inv_hover: "hover_inv s \<Longrightarrow> hover_inv (hover_block f s)"
proof (cases "hoveredNote s = hovered_now f s")
  case True
  assume "hover_inv s"
  with True show ?thesis by (simp add: hover_block_def Let_def)
next
  case False
  assume inv: "hover_inv s"
  let ?hv = "hovered_now f s"
  let ?ns = "all_notes (hover_block f s)"
  have mr: "map ref ?ns = map ref (all_notes s)"
    using False by (simp add: hover_block_notes comp_def)
  then have sr: "ref ` set ?ns = ref ` set (all_notes s)"
    by (metis set_map)
  have vis: "root_visible x \<longleftrightarrow> Some (ref x) = ?hv" if "x \<in> set ?ns" for x
    using that False by (auto simp: hover_block_notes)
  have own: "h \<in> ref ` set (all_notes s)" if "?hv = Some h" for h
    using hovered_now_owner [OF that] inv by (auto simp: hover_inv_def)
  have p1: "owner ` set (notePickables (hover_block f s)) \<subseteq> ref ` set ?ns"
    using inv unfolding sr hover_block_fields by (simp add: hover_inv_def)
  have "\<forall>r\<in>set (map ref (all_notes s)). r < built s"
    using inv by (simp add: hover_inv_def)
  then have "\<forall>r\<in>set (map ref ?ns). r < built s" unfolding mr .
  then have p2: "\<forall>x\<in>set ?ns. ref x < built (hover_block f s)"
    unfolding hover_block_fields by simp
  have p3: "distinct (map ref ?ns)"
    unfolding mr using inv by (simp add: hover_inv_def)
  have p4: "\<forall>h. hoveredNote (hover_block f s) = Some h \<longrightarrow>
        h \<in> ref ` set ?ns \<and> (\<forall>x\<in>set ?ns. root_visible x \<longleftrightarrow> ref x = h)"
    unfolding hover_block_fields sr using own vis by auto
  have p5: "\<forall>x\<in>set ?ns. \<forall>y\<in>set ?ns. root_visible x \<and> root_visible y \<longrightarrow> ref x = ref y"
    using vis by (metis option.inject)
  show ?thesis
    using p1 p2 p3 p4 p5 by (intro hover_invI) blast+
qed

lemma hover_inv_map:
  assumes inv: "hover_inv s"
    and n: "all_notes s' = map g (all_notes s)"
    and g: "\<And>x. ref (g x) = ref x" "\<And>x. root_visible (g x) = root_visible x"
    and same: "notePickables s' = notePickables s" "built s' = built s"
      "hoveredNote s' = hoveredNote s"
  shows "hover_inv s'"
proof (rule hover_invI)
  note d = hover_invD [OF inv]
  have mr: "map ref (all_notes s') = map ref (all_notes s)"
    unfolding n by (simp add: g comp_def)
  then have sr: "ref ` set (all_notes s') = ref ` set (all_notes s)" by (metis set_map)
  show "owner ` set (notePickables s') \<subseteq> ref ` set (all_notes s')"
    unfolding sr same using d(1) .
  show "\<forall>x\<in>set (all_notes s'). ref x < built s'"
    unfolding n same using d(2) by (simp add: g)
  show "distinct (map ref (all_notes s'))" unfolding mr using d(3) .
  show "h \<in> ref ` set (all_notes s')" if "hoveredNote s' = Some h" for h
    unfolding sr using d(4) that by (simp add: same)
  show "root_visible x \<longleftrightarrow> ref x = h"
    if "hoveredNote s' = Some h" "x \<in> set (all_notes s')" for h x
  proof -
    from that(2) obtain y where y: "y \<in> set (all_notes s)" "x = g y"
      unfolding n by auto
    from that(1) have "hoveredNote s = Some h" by (simp add: same)
    from d(5) [OF this y(1)] show ?thesis by (simp add: y(2) g)
  qed
  show "ref x = ref y"
    if "x \<in> set (all_notes s')" "y \<in> set (all_notes s')" "root_visible x" "root_visible y"
    for x y
  proof -
    from that(1) obtain a where a: "a \<in> set (all_notes s)" "x = g a" unfolding n by auto
    from that(2) obtain b where b: "b \<in> set (all_notes s)" "y = g b" unfolding n by auto
    from d(6) [OF a(1) b(1)] that(3,4) show ?thesis by (simp add: a(2) b(2) g)
  qed
qed

lemma hover_inv_same:
  assumes "hover_inv s" and "all_notes s' = all_notes s"
    and "notePickables s' = notePickables s" "built s' = built s"
    and "hoveredNote s' = hoveredNote s"
  shows "hover_inv s'"
  by (rule hover_inv_map [OF assms(1), where g = "\<lambda>x. x"]) (simp_all add: assms)

lemma hover_inv_open_confirm: "hover_inv s \<Longrightarrow> hover_inv (openDeleteConfirm r s)"
  by (erule hover_inv_same) (simp_all add: openDeleteConfirm_def)

lemma hover_inv_open_input: "hover_inv s \<Longrightarrow> hover_inv (openNoteInput r s)"
  by (erule hover_inv_same) (simp_all add: openNoteInput_def)

lemma hover_inv_cleanup: "hover_inv s \<Longrightarrow> hover_inv (cleanup s)"
  by (erule hover_inv_same) (simp_all add: cleanup_def)

lemma hover_inv_button2: "hover_inv s \<Longrightarrow> hover_inv (button2_block H c t cp s)"
  by (simp add: button2_block_def hover_inv_open_confirm hover_inv_create split: option.splits)

lemma hover_inv_button1: "hover_inv s \<Longrightarrow> hover_inv (button1_block c s)"
  by (simp add: button1_block_def hover_inv_open_input split: option.splits)

lemma hover_inv_squeeze: "hover_inv s \<Longrightarrow> hover_inv (squeeze_block c s)"
  by (simp add: squeeze_block_def hover_inv_remove split: option.splits)

lemma hover_inv_confirm: "hover_inv s \<Longrightarrow> hover_inv (confirm_block f s)"
  by (simp add: confirm_block_def confirm_onFrame_def hover_inv_remove hover_inv_cleanup
      split: option.splits)

lemma hover_inv_input_cancel: "hover_inv s \<Longrightarrow> hover_inv (input_cancel s)"
  by (erule hover_inv_same) (simp_all add: input_cancel_def)

lemma hover_inv_input_remove: "hover_inv s \<Longrightarrow> hover_inv (input_remove s)"
proof (cases "activeNoteInput s")
  case None
  assume "hover_inv s"
  with None show ?thesis by (simp add: input_remove_def)
next
  case (Some r)
  assume "hover_inv s"
  then have "hover_inv (removeNote (Some r) s)" by (rule hover_inv_remove)
  then have "hover_inv ((removeNote (Some r) s)\<lparr>activeNoteInput := None\<rparr>)"
    by (rule hover_inv_same) simp_all
  with Some show ?thesis by (simp add: input_remove_def)
qed

lemma hover_inv_input_save: "hover_inv s \<Longrightarrow> hover_inv (input_save v s)"
proof (cases "activeNoteInput s")
  case None
  assume "hover_inv s"
  with None show ?thesis by (simp add: input_save_def)
next
  case (Some r)
  assume inv: "hover_inv s"
  show ?thesis
    by (rule hover_inv_map [OF inv,
          where g = "\<lambda>n. if ref n = r then n\<lparr>content := trim v\<rparr> else n"])
       (simp_all add: input_save_def Some saveNotesToStorage_def)
qed

lemma hover_inv_load_items: "hover_inv s \<Longrightarrow> hover_inv (load_items H arr s)"
proof (induction arr arbitrary: s)
  case Nil
  then show ?case by simp
next
  case (Cons item arr)
  show ?case
  proof (cases "item_args H item")
    case (Inl e)
    with Cons.prems show ?thesis by simp
  next
    case (Inr a)
    obtain pos c i where "a = (pos, c, i)" by (cases a) auto
    with Inr Cons.IH [OF hover_inv_create [OF Cons.prems, of H pos c False i]]
    show ?thesis by simp
  qed
qed

lemma hover_inv_load: "hover_inv s \<Longrightarrow> hover_inv (loadNotesFromStorage H s)"
  by (simp add: loadNotesFromStorage_def hover_inv_load_items
      split: option.splits raw.splits sum.splits json.splits)

lemma hover_inv_step:
  assumes "note_step H a b" and "hover_inv a"
  shows "hover_inv b"
  using assms
proof (cases rule: note_step.cases)
  case ns_load
  from hover_inv_load [OF assms(2), of H] show ?thesis
    unfolding ns_load(1) by (rule hover_inv_same) simp_all
qed (simp_all add: hover_inv_hover hover_inv_button2 hover_inv_button1
       hover_inv_squeeze hover_inv_confirm hover_inv_input_save
       hover_inv_input_cancel hover_inv_input_remove)

lemma hover_inv_run: "hover_inv (ns (run H es (init_sys st)))"
proof (rule steps_invariant [OF run_steps, where P = hover_inv])
  show "hover_inv (ns (init_sys st))" by (simp add: init_sys_def hover_inv_init)
  show "\<And>a b. hover_inv a \<Longrightarrow> note_step H a b \<Longrightarrow> hover_inv b"
    using hover_inv_step by blast
qed

section \<open>Evaluating a run of events\<close>

lemma flags_finalize [simp]:
  "RAPIER (finalize_placed s) = RAPIER s"
  "cube_made (finalize_placed s) = cube_made s"
  by (simp_all add: finalize_placed_eq Let_def split: option.splits)

lemma flags_spawn_block [simp]:
  "RAPIER (spawn_block s) = RAPIER s" "cube_made (spawn_block s) = cube_made s"
  by (simp_all add: spawn_block_def split: option.splits)

lemma flags_target_block [simp]:
  "RAPIER (target_block t s) = RAPIER s" "cube_made (target_block t s) = cube_made s"
  by (simp_all add: target_block_def Let_def split: option.splits)

lemma flags_physics_block [simp]:
  "RAPIER (physics_block g d f s) = RAPIER s" "cube_made (physics_block g d f s) = cube_made s"
  by (simp_all add: physics_block_def Let_def)

lemma flags_first_frame [simp]:
  "RAPIER (first_frame H s) = RAPIER s" "cube_made (first_frame H s) = True"
  by (simp_all add: first_frame_def)

lemma flags_blocks [simp]:
  "RAPIER (hide_marker s) = RAPIER s" "cube_made (hide_marker s) = cube_made s"
  "RAPIER (after_trigger c s) = RAPIER s" "cube_made (after_trigger c s) = cube_made s"
  "RAPIER (notes_block H c f s) = RAPIER s" "cube_made (notes_block H c f s) = cube_made s"
  "RAPIER (confirm_loop_block f s) = RAPIER s"
  "cube_made (confirm_loop_block f s) = cube_made s"
  by (simp_all add: hide_marker_def after_trigger_def notes_block_def confirm_loop_block_def
        split: option.splits)

lemma flags_update [simp]:
  "RAPIER (snd (update H f delta s)) = RAPIER s"
  "cube_made (snd (update H f delta s)) = (cube_made s \<or> RAPIER s)"
  by (simp_all add: update_made split: option.splits)

lemma ns_apply_event:
  "ns (apply_event H (RapierLoaded m) s) = ns s"
  "ns (apply_event H (Frame f d) s) = ns (snd (update H f d s))"
  "ns (apply_event H (PlaneAdded p) s) = ns s"
  "ns (apply_event H (GltfLoaded k) s) = ns s"
  "ns (apply_event H (SpawnRequest a) s) = ns s"
  "ns (apply_event H (InputSave v) s) = input_save v (ns s)"
  "ns (apply_event H InputCancel s) = input_cancel (ns s)"
  "ns (apply_event H InputRemove s) = input_remove (ns s)"
  by (simp_all add: apply_event_def rapier_loaded_def)

lemma flags_apply_event:
  "RAPIER (apply_event H (RapierLoaded m) s) = True"
  "cube_made (apply_event H (RapierLoaded m) s) = cube_made s"
  "RAPIER (apply_event H (Frame f d) s) = RAPIER s"
  "cube_made (apply_event H (Frame f d) s) = (cube_made s \<or> RAPIER s)"
  "RAPIER (apply_event H (InputSave v) s) = RAPIER s"
  "cube_made (apply_event H (InputSave v) s) = cube_made s"
  "RAPIER (apply_event H InputCancel s) = RAPIER s"
  "cube_made (apply_event H InputCancel s) = cube_made s"
  "RAPIER (apply_event H InputRemove s) = RAPIER s"
  "cube_made (apply_event H InputRemove s) = cube_made s"
  by (simp_all add: apply_event_def rapier_loaded_def)

lemma init_sys_fields:
  "ns (init_sys st) = init_notes st" "RAPIER (init_sys st) = False"
  "cube_made (init_sys st) = False"
  by (simp_all add: init_sys_def)

lemmas sys_eval = ns_apply_event flags_apply_event init_sys_fields ns_update ns_first_frame

lemmas notes_eval = init_notes_def hover_block_def hovered_now_def
   button2_block_def button1_block_def squeeze_block_def
   confirm_block_def confirm_onFrame_def input_remove_def input_save_def input_cancel_def
   removeNote_def createNoteMarker_def openNoteInput_def openDeleteConfirm_def
   saveNotesToStorage_def loadNotesFromStorage_def button_click_def
   Let_def or_else_def cleanup_def

section \<open>The round trip of three notes\<close>

lemma three_note_events_state:
  "map note_view (all_notes (ns (run sample_host three_note_events (init_sys None)))) =
     [(JStr (gen_id sample_host 0), ''buy lamp'', (Fin 1, Fin 0, Fin 1)),
      (JStr (gen_id sample_host 1), [], (Fin 0, Fin 0, Fin 0)),
      (JStr (gen_id sample_host 2), ''move rug'', (Fin (- 2), Fin 0, Fin 3))]"
  "storage (saveNotesToStorage (ns (run sample_host three_note_events (init_sys None)))) =
     storage (ns (run sample_host three_note_events (init_sys None)))"
  by (simp_all add: three_note_events_def sys_eval idle_frame_def idle_pad_def press_def
        notes_eval note_view_def fin_def trim_examples numeral_2_eq_2)

text \<open>
  C1 on the example of the claim. The session above leaves the notes ``buy lamp'', the
  empty note and ``move rug'' at (1, 0, 1), (0, 0, 0) and (-2, 0, 3) in the store, and
  a new session restores from that store three notes with these ids, contents and
  positions. The same three notes, written down as a list, are restored from their
  serialization.
\<close>

theorem persisted_round_trip_witness:
  "map note_view (all_notes (ns (run sample_host three_note_events (init_sys None)))) =
     [(JStr (gen_id sample_host 0), ''buy lamp'', (Fin 1, Fin 0, Fin 1)),
      (JStr (gen_id sample_host 1), [], (Fin 0, Fin 0, Fin 0)),
      (JStr (gen_id sample_host 2), ''move rug'', (Fin (- 2), Fin 0, Fin 3))] \<and>
   map note_view
     (all_notes (loadNotesFromStorage sample_host
        (init_notes (storage (ns (run sample_host three_note_events (init_sys None))))))) =
     [(JStr (gen_id sample_host 0), ''buy lamp'', (Fin 1, Fin 0, Fin 1)),
      (JStr (gen_id sample_host 1), [], (Fin 0, Fin 0, Fin 0)),
      (JStr (gen_id sample_host 2), ''move rug'', (Fin (- 2), Fin 0, Fin 3))] \<and>
   storable \<lparr>ref = 0, nid = JStr ''a'', content = ''buy lamp'',
             position = (Fin 1, Fin 0, Fin 1), root_visible = False, torus_scale = 1\<rparr> \<and>
   storable \<lparr>ref = 1, nid = JStr ''b'', content = [],
             position = (Fin 0, Fin 0, Fin 0), root_visible = False, torus_scale = 1\<rparr> \<and>
   storable \<lparr>ref = 2, nid = JStr ''c'', content = ''move rug'',
             position = (Fin (- 2), Fin 0, Fin 3), root_visible = False, torus_scale = 1\<rparr> \<and>
   map note_view
     (all_notes (loadNotesFromStorage sample_host
        (init_notes (Some (JSON_stringify (JArr (map note_data
           [\<lparr>ref = 0, nid = JStr ''a'', content = ''buy lamp'',
              position = (Fin 1, Fin 0, Fin 1), root_visible = False, torus_scale = 1\<rparr>,
            \<lparr>ref = 1, nid = JStr ''b'', content = [],
              position = (Fin 0, Fin 0, Fin 0), root_visible = False, torus_scale = 1\<rparr>,
            \<lparr>ref = 2, nid = JStr ''c'', content = ''move rug'',
              position = (Fin (- 2), Fin 0, Fin 3), root_visible = False,
              torus_scale = 1\<rparr>]))))))) =
     [(JStr ''a'', ''buy lamp'', (Fin 1, Fin 0, Fin 1)),
      (JStr ''b'', [], (Fin 0, Fin 0, Fin 0)),
      (JStr ''c'', ''move rug'', (Fin (- 2), Fin 0, Fin 3))]"
proof -
  let ?n = "ns (run sample_host three_note_events (init_sys None))"
  let ?xs = "[\<lparr>ref = 0, nid = JStr ''a'', content = ''buy lamp'',
              position = (Fin 1, Fin 0, Fin 1), root_visible = False, torus_scale = 1\<rparr>,
            \<lparr>ref = 1, nid = JStr ''b'', content = [],
              position = (Fin 0, Fin 0, Fin 0), root_visible = False, torus_scale = 1\<rparr>,
            \<lparr>ref = 2, nid = JStr ''c'', content = ''move rug'',
              position = (Fin (- 2), Fin 0, Fin 3), root_visible = False,
              torus_scale = 1\<rparr>]"
  have st: "\<forall>x\<in>set ?xs. storable x" by (simp add: storable_def)
  from persisted_round_trip [of sample_host sample_host three_note_events ?xs "init_notes None"]
  have a: "map note_view
     (all_notes (loadNotesFromStorage sample_host
        (init_notes (storage (saveNotesToStorage ?n))))) = map note_view (all_notes ?n)"
    and b: "map note_view
        (all_notes (loadNotesFromStorage sample_host
           (init_notes (Some (JSON_stringify (JArr (map note_data ?xs))))))) =
      map note_view ?xs"
    using st by blast+
  from a have c: "map note_view
     (all_notes (loadNotesFromStorage sample_host (init_notes (storage ?n)))) =
     map note_view (all_notes ?n)"
    by (simp only: three_note_events_state(2))
  have d: "map note_view ?xs =
     [(JStr ''a'', ''buy lamp'', (Fin 1, Fin 0, Fin 1)),
      (JStr ''b'', [], (Fin 0, Fin 0, Fin 0)),
      (JStr ''c'', ''move rug'', (Fin (- 2), Fin 0, Fin 3))]"
    by (simp add: note_view_def)
  have e': "storable \<lparr>ref = 0, nid = JStr ''a'', content = ''buy lamp'',
             position = (Fin 1, Fin 0, Fin 1), root_visible = False, torus_scale = 1\<rparr>"
    "storable \<lparr>ref = 1, nid = JStr ''b'', content = [],
             position = (Fin 0, Fin 0, Fin 0), root_visible = False, torus_scale = 1\<rparr>"
    "storable \<lparr>ref = 2, nid = JStr ''c'', content = ''move rug'',
             position = (Fin (- 2), Fin 0, Fin 3), root_visible = False, torus_scale = 1\<rparr>"
    using st by simp_all
  note c' = c [unfolded three_note_events_state(1)]
  note b' = b [unfolded d]
  from three_note_events_state(1) c' e' b' show ?thesis by blast
qed

section \<open>The hover invariant\<close>

lemma one_with_key:
  "distinct (map f xs) \<Longrightarrow> h \<in> f ` set xs \<Longrightarrow> length (filter (\<lambda>x. f x = h) xs) = 1"
proof (induction xs)
  case Nil
  then show ?case by simp
next
  case (Cons x xs)
  from Cons.prems(1) have nx: "f x \<notin> f ` set xs" and dx: "distinct (map f xs)" by simp_all
  show ?case
  proof (cases "f x = h")
    case True
    with nx have "\<forall>y\<in>set xs. f y \<noteq> h" by blast
    then have "filter (\<lambda>x. f x = h) xs = []" by (simp add: filter_empty_conv)
    with True show ?thesis by simp
  next
    case False
    with Cons.prems(2) have "h \<in> f ` set xs" by auto
    from Cons.IH [OF dx this] False show ?thesis by simp
  qed
qed

lemma at_most_one_with:
  assumes "distinct (map f xs)"
    and "\<And>x y. x \<in> set xs \<Longrightarrow> y \<in> set xs \<Longrightarrow> P x \<Longrightarrow> P y \<Longrightarrow> f x = f y"
  shows "length (filter P xs) \<le> 1"
  using assms
proof (induction xs)
  case Nil
  then show ?case by simp
next
  case (Cons x xs)
  from Cons.prems(1) have nx: "f x \<notin> f ` set xs" and dx: "distinct (map f xs)" by simp_all
  have ih: "length (filter P xs) \<le> 1"
  proof (rule Cons.IH [OF dx])
    fix a b assume "a \<in> set xs" "b \<in> set xs" "P a" "P b"
    then show "f a = f b" using Cons.prems(2) [of a b] by simp
  qed
  show ?case
  proof (cases "P x")
    case False
    with ih show ?thesis by simp
  next
    case True
    have "\<not> P y" if "y \<in> set xs" for y
    proof
      assume "P y"
      with Cons.prems(2) [of x y] True that have "f x = f y" by simp
      with nx that show False by blast
    qed
    then have "filter P xs = []" by (simp add: filter_empty_conv)
    with True show ?thesis by simp
  qed
qed

text \<open>
  What the code keeps of the hover invariant. In every state the system reaches, the
  hover slot is empty or holds a note that is exactly once in the note collection, and
  then that note is the one whose label is visible; at most one note has a visible label
  at any time; and a remove of any note leaves the hover slot empty.
\<close>

lemma hover_slot_in_collection:
  "(let n = ns (run H es (init_sys st))
    in (case hoveredNote n of
          None \<Rightarrow> True
        | Some h \<Rightarrow>
            length (filter (\<lambda>x. ref x = h) (all_notes n)) = 1 \<and>
            (\<forall>x\<in>set (all_notes n). root_visible x \<longleftrightarrow> ref x = h)) \<and>
       length (filter root_visible (all_notes n)) \<le> 1 \<and>
       (\<forall>r. hoveredNote (removeNote (Some r) n) = None))"
proof -
  let ?n = "ns (run H es (init_sys st))"
  note d = hover_invD [OF hover_inv_run [of H es st]]
  have a: "length (filter (\<lambda>x. ref x = h) (all_notes ?n)) = 1 \<and>
           (\<forall>x\<in>set (all_notes ?n). root_visible x \<longleftrightarrow> ref x = h)"
    if "hoveredNote ?n = Some h" for h
    using one_with_key [OF d(3) d(4) [OF that]] d(5) [OF that] by blast
  have b: "length (filter root_visible (all_notes ?n)) \<le> 1"
    by (rule at_most_one_with [OF d(3)]) (rule d(6))
  have c: "\<forall>r. hoveredNote (removeNote (Some r) ?n) = None"
    by (simp add: remove_fields)
  show ?thesis
  proof (cases "hoveredNote ?n")
    case None
    with b c show ?thesis unfolding Let_def by simp
  next
    case (Some h)
    with a [OF Some] b c show ?thesis unfolding Let_def by simp
  qed
qed

lemma hover_events_state:
  "hoveredNote (ns (run sample_host hover_events (init_sys None))) = Some 0"
  "map ref (all_notes (ns (run sample_host hover_events (init_sys None)))) = [0, 1]"
  "map root_visible (all_notes (ns (run sample_host hover_events (init_sys None)))) =
     [True, False]"
  "map torus_scale (all_notes (ns (run sample_host hover_events (init_sys None)))) =
     [115 / 100, 1]"
  by (simp_all add: hover_events_def sys_eval idle_frame_def idle_pad_def press_def notes_eval)

text \<open>
  C2 at an input where the code breaks it. Two notes are made, and the text-entry
  overlay stays open for the second; the pointer moves onto the first, which is
  highlighted and shows its label; the delete button of the overlay removes the second
  note. \<^verbatim>\<open>_removeNote\<close> empties the hover slot for whatever note it removes, without
  the un-highlighting and the hiding of the labels that the hover detection of
  \<^verbatim>\<open>update\<close> does when it changes the slot. So the first note, still in the
  collection, keeps its visible label and its enlarged ring while no note is hovered;
  and when the pointer has left it, the next frame finds the slot already empty and
  changes nothing, so the label and the highlight stay.
\<close>

theorem stale_label_after_remove:
  "hoveredNote (ns (run sample_host hover_events (init_sys None))) = Some 0 \<and>
   stale_label_events = hover_events @ [InputRemove] \<and>
   hoveredNote (ns (run sample_host stale_label_events (init_sys None))) = None \<and>
   map ref (all_notes (ns (run sample_host stale_label_events (init_sys None)))) = [0] \<and>
   map root_visible (all_notes (ns (run sample_host stale_label_events (init_sys None)))) =
     [True] \<and>
   map torus_scale (all_notes (ns (run sample_host stale_label_events (init_sys None)))) =
     [115 / 100] \<and>
   hoveredNote (ns (run sample_host stale_label_away_events (init_sys None))) = None \<and>
   map root_visible
     (all_notes (ns (run sample_host stale_label_away_events (init_sys None)))) = [True] \<and>
   map torus_scale
     (all_notes (ns (run sample_host stale_label_away_events (init_sys None)))) = [115 / 100]"
proof -
  have a: "hoveredNote (ns (run sample_host hover_events (init_sys None))) = Some 0"
    by (simp add: hover_events_def sys_eval idle_frame_def idle_pad_def press_def notes_eval)
  have b: "stale_label_events = hover_events @ [InputRemove]"
    by (simp add: stale_label_events_def hover_events_def)
  have c: "hoveredNote (ns (run sample_host stale_label_events (init_sys None))) = None"
    "map ref (all_notes (ns (run sample_host stale_label_events (init_sys None)))) = [0]"
    "map root_visible (all_notes (ns (run sample_host stale_label_events (init_sys None)))) =
       [True]"
    "map torus_scale (all_notes (ns (run sample_host stale_label_events (init_sys None)))) =
       [115 / 100]"
    by (simp_all add: stale_label_events_def sys_eval idle_frame_def idle_pad_def press_def
          notes_eval)
  have d: "hoveredNote (ns (run sample_host stale_label_away_events (init_sys None))) = None"
    "map root_visible
       (all_notes (ns (run sample_host stale_label_away_events (init_sys None)))) = [True]"
    "map torus_scale
       (all_notes (ns (run sample_host stale_label_away_events (init_sys None)))) = [115 / 100]"
    by (simp_all add: stale_label_away_events_def stale_label_events_def sys_eval
          idle_frame_def idle_pad_def press_def notes_eval)
  from a b c d show ?thesis by blast
qed

text \<open>
  The invariant where the pointer rests on the first of two notes: the slot holds that
  note, its label is the only one visible, and removing it empties the slot.
\<close>

lemma hover_slot_in_collection_example:
  "hoveredNote (ns (run sample_host hover_events (init_sys None))) = Some 0 \<and>
   map ref (all_notes (ns (run sample_host hover_events (init_sys None)))) = [0, 1] \<and>
   map root_visible (all_notes (ns (run sample_host hover_events (init_sys None)))) =
     [True, False] \<and>
   length (filter root_visible
     (all_notes (ns (run sample_host hover_events (init_sys None))))) \<le> 1 \<and>
   hoveredNote (removeNote (Some 0) (ns (run sample_host hover_events (init_sys None)))) = None"
  using hover_slot_in_collection [of sample_host hover_events None] hover_events_state
  by (simp add: Let_def)

section \<open>Removing a note that is gone\<close>






lemma note_data_simps [simp]:
  "note_data (n\<lparr>torus_scale := a\<rparr>) = note_data n"
  "note_data (n\<lparr>root_visible := b\<rparr>) = note_data n"
  "note_data (n\<lparr>torus_scale := a, root_visible := b\<rparr>) = note_data n"
  by (simp_all add: note_data_def)


















section \<open>The floor collider\<close>

lemma floor_inv_same:
  "floor_inv w \<Longrightarrow> colliders w' = colliders w \<Longrightarrow> next_handle w' = next_handle w \<Longrightarrow>
   floorCollider w' = floorCollider w \<Longrightarrow> floor_inv w'"
  by (simp add: floor_inv_def)

lemma floor_inv_init: "floor_inv (init_world m)"
  by (simp add: floor_inv_def init_world_def createCollider_def cuboid_def is_floor_def)

lemma floor_inv_create:
  "floor_inv w \<Longrightarrow> made_by c \<noteq> FloorSlab \<Longrightarrow> floor_inv (createCollider c w)"
  by (auto simp: floor_inv_def createCollider_def is_floor_def less_Suc_eq)

lemma remove_floor:
  assumes "floor_inv w"
  shows "filter is_floor (colliders (removeCollider (floorCollider w) w)) = []"
proof -
  have "\<not> is_floor hc" if hc: "hc \<in> set (colliders w)" "fst hc \<noteq> floorCollider w" for hc
  proof
    assume "is_floor hc"
    with hc(1) have "fst hc \<in> set (map fst (filter is_floor (colliders w)))" by simp
    with assms hc(2) show False by (simp add: floor_inv_def)
  qed
  then show ?thesis
    by (auto simp: removeCollider_def filter_empty_conv)
qed

lemma floor_inv_replace:
  assumes "floor_inv w" and "made_by c = FloorSlab"
  shows "floor_inv ((createCollider c (removeCollider (floorCollider w) w))
           \<lparr>floorCollider := next_handle (removeCollider (floorCollider w) w)\<rparr>)"
proof -
  let ?w1 = "removeCollider (floorCollider w) w"
  have nh: "next_handle ?w1 = next_handle w" by (simp add: removeCollider_def)
  have sub: "set (colliders ?w1) \<subseteq> set (colliders w)" by (auto simp: removeCollider_def)
  have a: "\<forall>hc\<in>set (colliders ?w1). fst hc < next_handle w"
    using assms(1) sub by (auto simp: floor_inv_def)
  show ?thesis
    unfolding floor_inv_def
    using a remove_floor [OF assms(1)] assms(2)
    by (simp add: createCollider_def nh is_floor_def less_Suc_eq)
qed

lemma world_first_frame [simp]: "rapierWorld (first_frame H s) = rapierWorld s"
  by (simp add: first_frame_def)

lemma world_spawn_block [simp]: "rapierWorld (spawn_block s) = rapierWorld s"
  by (simp add: spawn_block_def split: option.splits)

lemma floor_inv_finalize:
  "floor_inv (rapierWorld s) \<Longrightarrow> floor_inv (rapierWorld (finalize_placed s))"
proof (cases "furnitureModel s")
  case None
  assume "floor_inv (rapierWorld s)"
  with None show ?thesis by (simp add: finalize_placed_eq)
next
  case (Some m)
  assume a: "floor_inv (rapierWorld s)"
  let ?w = "rapierWorld s"
  let ?c = "(cuboid Placed (1/2, 1/2, 1/2))
              \<lparr>friction := Some (1/2), attached_to := Some (FixedBody (length (fixed_bodies ?w)))\<rparr>"
  have "floor_inv (createCollider ?c ?w)"
    by (rule floor_inv_create [OF a]) (simp add: cuboid_def)
  then have "floor_inv (rapierWorld (finalize_placed s))"
    by (rule floor_inv_same)
       (simp_all add: finalize_placed_eq Some Let_def createCollider_def)
  then show ?thesis .
qed

lemma floor_inv_target_block:
  "floor_inv (rapierWorld s) \<Longrightarrow> floor_inv (rapierWorld (target_block t s))"
  by (cases t) (auto simp: target_block_def Let_def applyImpulse_def elim: floor_inv_same)

lemma floor_inv_physics_block:
  "floor_inv (rapierWorld s) \<Longrightarrow> floor_inv (rapierWorld (physics_block g d f s))"
  by (erule floor_inv_same)
     (simp_all add: physics_block_def Let_def applyTorqueImpulse_def step_world_def)

lemma world_blocks [simp]:
  "rapierWorld (hide_marker s) = rapierWorld s"
  "rapierWorld (notes_block H c f s) = rapierWorld s"
  "rapierWorld (confirm_loop_block f s) = rapierWorld s"
  by (simp_all add: hide_marker_def notes_block_def confirm_loop_block_def)

lemma floor_inv_after_trigger:
  "floor_inv (rapierWorld s) \<Longrightarrow> floor_inv (rapierWorld (after_trigger c s))"
  by (simp add: after_trigger_def floor_inv_finalize split: option.splits)

lemma floor_inv_update:
  assumes "floor_inv (rapierWorld s)"
  shows "floor_inv (rapierWorld (snd (update H f d s)))"
proof -
  have "floor_inv (rapierWorld (after_trigger c (spawn_block (first_frame H s))))" for c
    by (rule floor_inv_after_trigger) (simp add: assms)
  then have "floor_inv (rapierWorld (target_block t
               (notes_block H c f (after_trigger c (spawn_block (first_frame H s))))))" for c t
    by (intro floor_inv_target_block) simp
  then show ?thesis
    using assms by (simp add: update_made floor_inv_physics_block split: option.splits)
qed

lemma floor_inv_onPlaneAdded:
  assumes "floor_inv (rapierWorld s)"
  shows "floor_inv (rapierWorld (onPlaneAdded p s))"
proof (cases "orientation p = Vertical")
  case True
  have "floor_inv (createCollider
          ((cuboid Wall (boundingRectangleWidth p, 0, boundingRectangleHeight p))
             \<lparr>c_translation := p_position p, c_rotation := p_quaternion p\<rparr>) (rapierWorld s))"
    by (rule floor_inv_create [OF assms]) (simp add: cuboid_def)
  with True show ?thesis by (simp add: onPlaneAdded_def)
next
  case False
  show ?thesis
  proof (cases "semanticLabel p = ''floor''")
    case lab: False
    with False assms show ?thesis by (simp add: onPlaneAdded_def)
  next
    case lab: True
    show ?thesis
    proof (cases "probe p")
      case None
      with False lab assms show ?thesis by (simp add: onPlaneAdded_def)
    next
      case (Some hit)
      let ?c = "(cuboid FloorSlab (10, 0, 10))
                  \<lparr>c_translation := (0, vy hit, 0), friction := Some (1/2)\<rparr>"
      have "floor_inv ((createCollider ?c (removeCollider (floorCollider (rapierWorld s)) (rapierWorld s)))
           \<lparr>floorCollider := next_handle (removeCollider (floorCollider (rapierWorld s)) (rapierWorld s))\<rparr>)"
        by (rule floor_inv_replace [OF assms]) (simp add: cuboid_def)
      then have "floor_inv (rapierWorld (onPlaneAdded p s))"
        by (rule floor_inv_same)
           (simp_all add: onPlaneAdded_def False lab Some Let_def)
      then show ?thesis .
    qed
  qed
qed

lemma floor_inv_event:
  "floor_inv (rapierWorld s) \<Longrightarrow> floor_inv (rapierWorld (apply_event H e s))"
  by (cases e)
     (simp_all add: apply_event_def floor_inv_update floor_inv_onPlaneAdded
        rapier_loaded_def floor_inv_init gltf_loaded_def split: list.splits)

lemma floor_inv_run:
  "floor_inv (rapierWorld s) \<Longrightarrow> floor_inv (rapierWorld (run H es s))"
  by (induction es arbitrary: s) (simp_all add: floor_inv_event)

text \<open>
  C4. In every state the system reaches after the physics engine is initialised, the
  world holds exactly one collider made as a floor slab, and it is the one
  \<^verbatim>\<open>floorCollider\<close> refers to. When a plane that is not vertical and is labelled
  as the floor is discovered, either the probe ray misses and nothing changes, or the
  previous floor collider leaves the world and the one slab made at the probed height
  takes its place, and the visual floor gets that height.
\<close>

theorem floor_collider_invariant:
  "(let s = run H es (init_sys st); w = rapierWorld s
    in (RAPIER s \<longrightarrow>
          length (filter is_floor (colliders w)) = 1 \<and>
          map fst (filter is_floor (colliders w)) = [floorCollider w]) \<and>
       (orientation p \<noteq> Vertical \<and> semanticLabel p = ''floor'' \<longrightarrow>
          (case probe p of
             None \<Rightarrow> onPlaneAdded p s = s
           | Some hit \<Rightarrow>
               filter is_floor (colliders (rapierWorld (onPlaneAdded p s))) =
                 [(next_handle w,
                   (cuboid FloorSlab (10, 0, 10))
                     \<lparr>c_translation := (0, vy hit, 0), friction := Some (1/2)\<rparr>)] \<and>
               floorCollider (rapierWorld (onPlaneAdded p s)) = next_handle w \<and>
               floorCollider w \<notin> fst ` set (colliders (rapierWorld (onPlaneAdded p s))) \<and>
               floor_y (onPlaneAdded p s) = vy hit)))"
proof -
  let ?s = "run H es (init_sys st)"
  let ?w = "rapierWorld ?s"
  have inv: "floor_inv ?w"
    by (rule floor_inv_run) (simp add: init_sys_def floor_inv_init)
  then have one: "map fst (filter is_floor (colliders ?w)) = [floorCollider ?w]"
    by (simp add: floor_inv_def)
  then have "length (map fst (filter is_floor (colliders ?w))) = 1" by simp
  then have len: "length (filter is_floor (colliders ?w)) = 1" by simp
  have miss: "onPlaneAdded p ?s = ?s"
    if "orientation p \<noteq> Vertical" "semanticLabel p = ''floor''" "probe p = None"
    using that by (simp add: onPlaneAdded_def)
  have hit: "filter is_floor (colliders (rapierWorld (onPlaneAdded p ?s))) =
                 [(next_handle ?w,
                   (cuboid FloorSlab (10, 0, 10))
                     \<lparr>c_translation := (0, vy hit, 0), friction := Some (1/2)\<rparr>)] \<and>
               floorCollider (rapierWorld (onPlaneAdded p ?s)) = next_handle ?w \<and>
               floorCollider ?w \<notin> fst ` set (colliders (rapierWorld (onPlaneAdded p ?s))) \<and>
               floor_y (onPlaneAdded p ?s) = vy hit"
    if p: "orientation p \<noteq> Vertical" "semanticLabel p = ''floor''" "probe p = Some hit"
    for hit
  proof -
    let ?w1 = "removeCollider (floorCollider ?w) ?w"
    let ?c = "(cuboid FloorSlab (10, 0, 10))
                \<lparr>c_translation := (0, vy hit, 0), friction := Some (1/2)\<rparr>"
    have cs: "colliders (rapierWorld (onPlaneAdded p ?s)) =
                colliders ?w1 @ [(next_handle ?w, ?c)]"
      using p by (simp add: onPlaneAdded_def Let_def createCollider_def removeCollider_def)
    have fc: "floorCollider (rapierWorld (onPlaneAdded p ?s)) = next_handle ?w"
      using p by (simp add: onPlaneAdded_def Let_def createCollider_def removeCollider_def)
    have fy: "floor_y (onPlaneAdded p ?s) = vy hit"
      using p by (simp add: onPlaneAdded_def Let_def)
    have "floorCollider ?w \<in> set (map fst (filter is_floor (colliders ?w)))"
      unfolding one by simp
    then obtain hc where "hc \<in> set (colliders ?w)" "fst hc = floorCollider ?w" by auto
    with inv have lt: "floorCollider ?w < next_handle ?w" by (auto simp: floor_inv_def)
    have gone: "floorCollider ?w \<notin> fst ` set (colliders ?w1)"
      by (auto simp: removeCollider_def)
    have f1: "filter is_floor (colliders (rapierWorld (onPlaneAdded p ?s))) =
                [(next_handle ?w, ?c)]"
      unfolding cs using remove_floor [OF inv] by (simp add: is_floor_def cuboid_def)
    have f3: "floorCollider ?w \<notin> fst ` set (colliders (rapierWorld (onPlaneAdded p ?s)))"
      unfolding cs using gone lt by simp
    from f1 fc f3 fy show ?thesis by blast
  qed
  show ?thesis
    unfolding Let_def using one len miss hit by (simp split: option.splits)
qed

lemma started_RAPIER: "RAPIER (run sample_host started_events (init_sys None))"
  by (simp add: started_events_def flags_apply_event)

text \<open>
  C4 where a floor plane at height 1.2 is discovered after the default floor at height
  0: one floor collider before, one after, and the visual floor at 1.2.
\<close>

theorem floor_collider_invariant_witness:
  "RAPIER (run sample_host started_events (init_sys None)) \<and>
   orientation floor_plane \<noteq> Vertical \<and> semanticLabel floor_plane = ''floor'' \<and>
   probe floor_plane = Some (0, 6/5, 0) \<and>
   length (filter is_floor
     (colliders (rapierWorld (run sample_host started_events (init_sys None))))) = 1 \<and>
   length (filter is_floor
     (colliders (rapierWorld
        (onPlaneAdded floor_plane (run sample_host started_events (init_sys None)))))) = 1 \<and>
   floor_y (onPlaneAdded floor_plane (run sample_host started_events (init_sys None))) = 6/5"
proof -
  have p: "orientation floor_plane \<noteq> Vertical" "semanticLabel floor_plane = ''floor''"
    "probe floor_plane = Some (0, 6/5, 0)"
    by (simp_all add: floor_plane_def)
  from floor_collider_invariant [of sample_host started_events None floor_plane]
    started_RAPIER p
  show ?thesis by (simp add: Let_def vy_def)
qed

section \<open>Placing the furniture\<close>

lemma spawn_fields_target_block [simp]:
  "furnitureModel (target_block t s) = furnitureModel s"
  "loads (target_block t s) = loads s"
  "furnitureLoading (target_block t s) = furnitureLoading s"
  "furnitureToSpawn (target_block t s) = furnitureToSpawn s"
  by (simp_all add: target_block_def Let_def split: option.splits)

lemma spawn_fields_physics_block [simp]:
  "furnitureModel (physics_block g d f s) = furnitureModel s"
  "loads (physics_block g d f s) = loads s"
  "furnitureLoading (physics_block g d f s) = furnitureLoading s"
  "furnitureToSpawn (physics_block g d f s) = furnitureToSpawn s"
  by (simp_all add: physics_block_def Let_def)

lemma spawn_fields_finalize [simp]:
  "loads (finalize_placed s) = loads s"
  "furnitureLoading (finalize_placed s) = furnitureLoading s"
  "furnitureToSpawn (finalize_placed s) = furnitureToSpawn s"
  "furnitureModel (finalize_placed s) = None"
  by (simp_all add: finalize_placed_eq Let_def split: option.splits)

lemma spawn_fields_first_frame [simp]:
  "loads (first_frame H s) = loads s"
  "furnitureLoading (first_frame H s) = furnitureLoading s"
  "furnitureToSpawn (first_frame H s) = furnitureToSpawn s"
  "furnitureModel (first_frame H s) = (if cube_made s then furnitureModel s else None)"
  by (simp_all add: first_frame_def)

lemma spawn_block_fields:
  "loads (spawn_block s) =
     (case furnitureToSpawn s of
        None \<Rightarrow> loads s
      | Some name \<Rightarrow>
          if name \<noteq> [] \<and> furnitureModel s = None \<and> \<not> furnitureLoading s
          then loads s @ [''assets/'' @ name] else loads s)"
  "furnitureModel (spawn_block s) = furnitureModel s"
  by (simp_all add: spawn_block_def split: option.splits)

lemma spawn_fields_blocks [simp]:
  "loads (hide_marker s) = loads s"
  "furnitureLoading (hide_marker s) = furnitureLoading s"
  "furnitureToSpawn (hide_marker s) = furnitureToSpawn s"
  "furnitureModel (hide_marker s) = furnitureModel s"
  "loads (after_trigger c s) = loads s"
  "furnitureLoading (after_trigger c s) = furnitureLoading s"
  "furnitureToSpawn (after_trigger c s) = furnitureToSpawn s"
  "loads (notes_block H c f s) = loads s"
  "furnitureLoading (notes_block H c f s) = furnitureLoading s"
  "furnitureToSpawn (notes_block H c f s) = furnitureToSpawn s"
  "furnitureModel (notes_block H c f s) = furnitureModel s"
  "loads (confirm_loop_block f s) = loads s"
  "furnitureLoading (confirm_loop_block f s) = furnitureLoading s"
  "furnitureToSpawn (confirm_loop_block f s) = furnitureToSpawn s"
  "furnitureModel (confirm_loop_block f s) = furnitureModel s"
  by (simp_all add: hide_marker_def after_trigger_def notes_block_def confirm_loop_block_def
        split: option.splits)

lemma furnitureModel_after_trigger:
  "furnitureModel (after_trigger c s) =
     (case gamepadWrapper c of
        None \<Rightarrow> furnitureModel s
      | Some g \<Rightarrow> if TRIGGER \<in> down g then None else furnitureModel s)"
  by (simp add: after_trigger_def split: option.splits)

lemma spawn_fields_update:
  "loads (snd (update H f d s)) =
     (if RAPIER s then loads (spawn_block (first_frame H s)) else loads s)"
  "furnitureLoading (snd (update H f d s)) =
     (if RAPIER s then furnitureLoading (spawn_block (first_frame H s)) else furnitureLoading s)"
  "furnitureToSpawn (snd (update H f d s)) =
     (if RAPIER s then furnitureToSpawn (spawn_block (first_frame H s)) else furnitureToSpawn s)"
  by (simp_all add: update_made split: option.splits)

lemma furnitureModel_update:
  "furnitureModel (snd (update H f d s)) =
     (if \<not> RAPIER s then furnitureModel s
      else case right f of
             None \<Rightarrow> furnitureModel (spawn_block (first_frame H s))
           | Some c \<Rightarrow>
               if \<not> targetRaySpace c then furnitureModel (spawn_block (first_frame H s))
               else (case gamepadWrapper c of
                       None \<Rightarrow> furnitureModel (spawn_block (first_frame H s))
                     | Some g \<Rightarrow>
                         if TRIGGER \<in> down g then None
                         else furnitureModel (spawn_block (first_frame H s))))"
  by (simp add: update_made furnitureModel_after_trigger split: option.splits)

lemma pose_after_step:
  assumes "RAPIER s" and "right f = Some c" and "targetRaySpace c"
    and "gamepadWrapper c = Some g"
  shows "rotation (rigidBody (rapierWorld (snd (update H f d s)))) = snd (stepped f)"
  using assms
  by (simp add: update_made physics_block_def step_world_def Let_def)

lemma spawn_fields_apply_event:
  "furnitureToSpawn (apply_event H (RapierLoaded m) s) = furnitureToSpawn s"
  "furnitureModel (apply_event H (RapierLoaded m) s) = furnitureModel s"
  "furnitureLoading (apply_event H (RapierLoaded m) s) = furnitureLoading s"
  "loads (apply_event H (RapierLoaded m) s) = loads s"
  "furnitureToSpawn (apply_event H (SpawnRequest a) s) = Some a"
  "furnitureModel (apply_event H (SpawnRequest a) s) = furnitureModel s"
  "furnitureLoading (apply_event H (SpawnRequest a) s) = furnitureLoading s"
  "loads (apply_event H (SpawnRequest a) s) = loads s"
  "RAPIER (apply_event H (SpawnRequest a) s) = RAPIER s"
  "cube_made (apply_event H (SpawnRequest a) s) = cube_made s"
  "RAPIER (apply_event H (GltfLoaded k) s) = RAPIER s"
  "cube_made (apply_event H (GltfLoaded k) s) = cube_made s"
  "furnitureModel (apply_event H (GltfLoaded k) s) =
     (if loads s = [] then furnitureModel s else Some k)"
  "furnitureModel (apply_event H (Frame f d) s) = furnitureModel (snd (update H f d s))"
  "loads (apply_event H (Frame f d) s) = loads (snd (update H f d s))"
  "furnitureLoading (apply_event H (Frame f d) s) = furnitureLoading (snd (update H f d s))"
  by (simp_all add: apply_event_def rapier_loaded_def gltf_loaded_def split: list.splits)

lemma init_sys_spawn_fields:
  "furnitureToSpawn (init_sys st) = None" "furnitureModel (init_sys st) = None"
  "furnitureLoading (init_sys st) = False" "loads (init_sys st) = []"
  by (simp_all add: init_sys_def)

lemma carrying_state:
  "RAPIER (run sample_host carrying_events (init_sys None))"
  "furnitureModel (run sample_host carrying_events (init_sys None)) = Some 7"
  "rotation (rigidBody (rapierWorld (run sample_host carrying_events (init_sys None)))) =
     (0, 1, 0, 0)"
proof -
  show "RAPIER (run sample_host carrying_events (init_sys None))"
    by (simp add: carrying_events_def flags_apply_event spawn_fields_apply_event)
  show "furnitureModel (run sample_host carrying_events (init_sys None)) = Some 7"
    by (simp add: carrying_events_def flags_apply_event spawn_fields_apply_event
          furnitureModel_update spawn_fields_update spawn_block_fields init_sys_fields
          init_sys_spawn_fields idle_frame_def idle_pad_def)
  have r: "RAPIER (run sample_host
             [RapierLoaded 1, SpawnRequest ''chair.glb'', Frame idle_frame (1/60), GltfLoaded 7]
             (init_sys None))"
    by (simp add: flags_apply_event spawn_fields_apply_event)
  show "rotation (rigidBody (rapierWorld (run sample_host carrying_events (init_sys None)))) =
     (0, 1, 0, 0)"
    using pose_after_step [OF r, of "idle_frame\<lparr>stepped := ((0, 1/2, 2), (0, 1, 0, 0))\<rparr>"
        "\<lparr>targetRaySpace = True, gamepadWrapper = Some idle_pad\<rparr>" idle_pad sample_host "1/60"]
    by (simp add: carrying_events_def idle_frame_def apply_event_def)
qed

lemma model_local_blocks [simp]:
  "model_local (first_frame H s) = model_local s"
  "model_local (spawn_block s) = model_local s"
  "model_local (hide_marker s) = model_local s"
  "model_local (finalize_placed s) = model_local s"
  "model_local (after_trigger c s) = model_local s"
  "model_local (notes_block H c f s) = model_local s"
  "model_local (target_block t s) = model_local s"
  "model_local (physics_block g d f s) = model_local s"
  "model_local (confirm_loop_block f s) = model_local s"
  by (simp_all add: first_frame_def spawn_block_def hide_marker_def finalize_placed_eq
        after_trigger_def notes_block_def target_block_def physics_block_def
        confirm_loop_block_def Let_def split: option.splits)

lemma model_local_update: "model_local (snd (update H f d s)) = model_local s"
  by (simp add: update_made split: option.splits)

lemma cube_pose_after_step:
  assumes "RAPIER s" and "right f = Some c" and "targetRaySpace c"
    and "gamepadWrapper c = Some g"
  shows "cube_position (snd (update H f d s)) = fst (stepped f)"
    and "cube_quaternion (snd (update H f d s)) = snd (stepped f)"
  using assms
  by (simp_all add: update_made physics_block_def step_world_def confirm_loop_block_def
        Let_def)

lemma carrying_pose:
  "cube_made (run sample_host carrying_events (init_sys None))"
  "cube_position (run sample_host carrying_events (init_sys None)) = (0, 1/2, 2)"
  "cube_quaternion (run sample_host carrying_events (init_sys None)) = (0, 1, 0, 0)"
  "model_local (run sample_host carrying_events (init_sys None)) =
     ((0, - (1/2), 0), identity_quat)"
proof -
  show "cube_made (run sample_host carrying_events (init_sys None))"
    by (simp add: carrying_events_def flags_apply_event spawn_fields_apply_event)
  have r: "RAPIER (run sample_host
             [RapierLoaded 1, SpawnRequest ''chair.glb'', Frame idle_frame (1/60), GltfLoaded 7]
             (init_sys None))"
    by (simp add: flags_apply_event spawn_fields_apply_event)
  note p = cube_pose_after_step [OF r, of "idle_frame\<lparr>stepped := ((0, 1/2, 2), (0, 1, 0, 0))\<rparr>"
        "\<lparr>targetRaySpace = True, gamepadWrapper = Some idle_pad\<rparr>" idle_pad sample_host "1/60"]
  show "cube_position (run sample_host carrying_events (init_sys None)) = (0, 1/2, 2)"
    using p(1) by (simp add: carrying_events_def idle_frame_def apply_event_def)
  show "cube_quaternion (run sample_host carrying_events (init_sys None)) = (0, 1, 0, 0)"
    using p(2) by (simp add: carrying_events_def idle_frame_def apply_event_def)
  have l: "loads (run sample_host
             [RapierLoaded 1, SpawnRequest ''chair.glb'', Frame idle_frame (1/60)]
             (init_sys None)) \<noteq> []"
    by (simp add: flags_apply_event spawn_fields_apply_event
          spawn_fields_update spawn_block_fields init_sys_fields
          init_sys_spawn_fields idle_frame_def idle_pad_def)
  have "model_local (gltf_loaded 7 (run sample_host
             [RapierLoaded 1, SpawnRequest ''chair.glb'', Frame idle_frame (1/60)]
             (init_sys None))) = ((0, - (1/2), 0), identity_quat)"
    using l by (simp add: gltf_loaded_def split: list.splits)
  then show "model_local (run sample_host carrying_events (init_sys None)) =
     ((0, - (1/2), 0), identity_quat)"
    by (simp add: carrying_events_def apply_event_def model_local_update)
qed

lemma started_cube:
  "cube_made (run sample_host started_events (init_sys None))"
  "furnitureModel (run sample_host started_events (init_sys None)) = None"
  by (simp_all add: started_events_def flags_apply_event spawn_fields_apply_event
        furnitureModel_update spawn_block_fields init_sys_fields init_sys_spawn_fields
        idle_frame_def idle_pad_def)

lemma attach_keeps_world_pose:
  "world_pose scene_pose (attach_to_scene parent child) = world_pose parent child"
  by (simp add: attach_to_scene_def world_pose_def scene_pose_def pose_inverse_def
        applyQuaternion_def cross_def vadd_def qmul_def Let_def split: prod.splits)

text \<open>
  C7, as amended. Before the first frame has built the cube, finalize raises a
  TypeError and changes nothing. Once the cube exists: with no model on the cube,
  finalize returns without an error and leaves the state, and so the bodies and the
  colliders of the world, as they are. With a model \<open>m\<close> on the cube and the engine
  there, it returns without an error; the model leaves the cube and is attached under
  the scene with its shadow on, at a local pose that gives it the world pose it had on
  the cube; the world gets exactly one more fixed body, at the translation and rotation
  the carrying body has, and exactly one more collider, attached to that body with no
  offset; and the carrying body is put at the spawn point with zero linear and angular
  velocity, its rotation left as it is.
\<close>

theorem finalize_effect:
  "(\<not> cube_made s \<longrightarrow> finalizeFurniturePosition s = (Some TypeError, s)) \<and>
   (cube_made s \<and> furnitureModel s = None \<longrightarrow> finalizeFurniturePosition s = (None, s)) \<and>
   (cube_made s \<and> RAPIER s \<and> furnitureModel s = Some m \<longrightarrow>
      (\<exists>s' p. finalizeFurniturePosition s = (None, s') \<and>
         scene_furniture s' = scene_furniture s @ [(m, True, p)] \<and>
         world_pose scene_pose p =
           world_pose (cube_position s, cube_quaternion s) (model_local s) \<and>
         furnitureModel s' = None \<and>
         fixed_bodies (rapierWorld s') =
           fixed_bodies (rapierWorld s) @
             [\<lparr>dynamic = False, translation = translation (rigidBody (rapierWorld s)),
               rotation = rotation (rigidBody (rapierWorld s)), linvel = Some (0, 0, 0),
               angvel = Some (0, 0, 0), mass = 0\<rparr>] \<and>
         colliders (rapierWorld s') =
           colliders (rapierWorld s) @
             [(next_handle (rapierWorld s),
               (cuboid Placed (1/2, 1/2, 1/2))
                 \<lparr>friction := Some (1/2),
                  attached_to := Some (FixedBody (length (fixed_bodies (rapierWorld s))))\<rparr>)] \<and>
         translation (rigidBody (rapierWorld s')) = spawn_point \<and>
         linvel (rigidBody (rapierWorld s')) = Some (0, 0, 0) \<and>
         angvel (rigidBody (rapierWorld s')) = Some (0, 0, 0) \<and>
         rotation (rigidBody (rapierWorld s')) = rotation (rigidBody (rapierWorld s))))"
proof (intro conjI impI)
  assume "\<not> cube_made s"
  then show "finalizeFurniturePosition s = (Some TypeError, s)"
    by (simp add: finalizeFurniturePosition_def)
next
  assume "cube_made s \<and> furnitureModel s = None"
  then show "finalizeFurniturePosition s = (None, s)"
    by (simp add: finalizeFurniturePosition_def)
next
  assume a: "cube_made s \<and> RAPIER s \<and> furnitureModel s = Some m"
  show "\<exists>s' p. finalizeFurniturePosition s = (None, s') \<and>
         scene_furniture s' = scene_furniture s @ [(m, True, p)] \<and>
         world_pose scene_pose p =
           world_pose (cube_position s, cube_quaternion s) (model_local s) \<and>
         furnitureModel s' = None \<and>
         fixed_bodies (rapierWorld s') =
           fixed_bodies (rapierWorld s) @
             [\<lparr>dynamic = False, translation = translation (rigidBody (rapierWorld s)),
               rotation = rotation (rigidBody (rapierWorld s)), linvel = Some (0, 0, 0),
               angvel = Some (0, 0, 0), mass = 0\<rparr>] \<and>
         colliders (rapierWorld s') =
           colliders (rapierWorld s) @
             [(next_handle (rapierWorld s),
               (cuboid Placed (1/2, 1/2, 1/2))
                 \<lparr>friction := Some (1/2),
                  attached_to := Some (FixedBody (length (fixed_bodies (rapierWorld s))))\<rparr>)] \<and>
         translation (rigidBody (rapierWorld s')) = spawn_point \<and>
         linvel (rigidBody (rapierWorld s')) = Some (0, 0, 0) \<and>
         angvel (rigidBody (rapierWorld s')) = Some (0, 0, 0) \<and>
         rotation (rigidBody (rapierWorld s')) = rotation (rigidBody (rapierWorld s))"
    using a
    by (intro exI [of _ "fix_in_place (detach_model m s)"]
          exI [of _ "attach_to_scene (cube_position s, cube_quaternion s) (model_local s)"])
       (simp add: finalizeFurniturePosition_def fix_in_place_def detach_model_def Let_def
          createCollider_def attach_keeps_world_pose)
qed

text \<open>
  C7 as stated fails on the pose: the carrying body was turned by the engine, and after
  finalize it is at the spawn point but still turned, not in the rotation it was
  spawned with.
\<close>

theorem finalize_keeps_rotation_counterexample:
  "cube_made (run sample_host carrying_events (init_sys None)) \<and>
   furnitureModel (run sample_host carrying_events (init_sys None)) = Some 7 \<and>
   rotation (rigidBody (init_world 1)) = identity_quat \<and>
   fst (finalizeFurniturePosition (run sample_host carrying_events (init_sys None))) = None \<and>
   translation (rigidBody (rapierWorld (snd
     (finalizeFurniturePosition (run sample_host carrying_events (init_sys None)))))) =
     spawn_point \<and>
   rotation (rigidBody (rapierWorld (snd
     (finalizeFurniturePosition (run sample_host carrying_events (init_sys None)))))) =
     (0, 1, 0, 0) \<and>
   (0, 1, 0, 0) \<noteq> identity_quat"
  using carrying_state carrying_pose(1)
  by (simp add: finalizeFurniturePosition_def fix_in_place_def detach_model_def Let_def
        createCollider_def init_world_def identity_quat_def)

text \<open>
  The amended C7 before the engine has arrived, after one frame with no model, and
  with the model 7 on the cube at (0, 0.5, 2), turned half a turn about the vertical
  axis: the model, hung 0.5 below the cube, goes under the scene at (0, 0, 2), turned
  as the cube.
\<close>

theorem finalize_effect_witness:
  "\<not> cube_made (init_sys None) \<and>
   finalizeFurniturePosition (init_sys None) = (Some TypeError, init_sys None) \<and>
   cube_made (run sample_host started_events (init_sys None)) \<and>
   furnitureModel (run sample_host started_events (init_sys None)) = None \<and>
   finalizeFurniturePosition (run sample_host started_events (init_sys None)) =
     (None, run sample_host started_events (init_sys None)) \<and>
   cube_made (run sample_host carrying_events (init_sys None)) \<and>
   RAPIER (run sample_host carrying_events (init_sys None)) \<and>
   furnitureModel (run sample_host carrying_events (init_sys None)) = Some 7 \<and>
   fst (finalizeFurniturePosition (run sample_host carrying_events (init_sys None))) = None \<and>
   scene_furniture (snd
       (finalizeFurniturePosition (run sample_host carrying_events (init_sys None)))) =
     scene_furniture (run sample_host carrying_events (init_sys None)) @
       [(7, True, ((0, 0, 2), (0, 1, 0, 0)))] \<and>
   length (fixed_bodies (rapierWorld (snd
     (finalizeFurniturePosition (run sample_host carrying_events (init_sys None)))))) =
     Suc (length (fixed_bodies (rapierWorld (run sample_host carrying_events (init_sys None))))) \<and>
   length (colliders (rapierWorld (snd
     (finalizeFurniturePosition (run sample_host carrying_events (init_sys None)))))) =
     Suc (length (colliders (rapierWorld (run sample_host carrying_events (init_sys None))))) \<and>
   translation (rigidBody (rapierWorld (snd
     (finalizeFurniturePosition (run sample_host carrying_events (init_sys None)))))) =
     spawn_point"
proof -
  let ?S = "run sample_host carrying_events (init_sys None)"
  let ?T = "run sample_host started_events (init_sys None)"
  have a: "\<not> cube_made (init_sys None)" by (simp add: init_sys_def)
  from finalize_effect [of "init_sys None" 0] a
  have c: "finalizeFurniturePosition (init_sys None) = (Some TypeError, init_sys None)"
    by blast
  from finalize_effect [of ?T 0] started_cube
  have d: "finalizeFurniturePosition ?T = (None, ?T)" by blast
  from finalize_effect [of ?S 7] carrying_pose(1) carrying_state(1,2)
  obtain s' p where e: "finalizeFurniturePosition ?S = (None, s')"
    and f: "scene_furniture s' = scene_furniture ?S @ [(7, True, p)]"
    and g: "world_pose scene_pose p = world_pose (cube_position ?S, cube_quaternion ?S) (model_local ?S)"
    and h: "length (fixed_bodies (rapierWorld s')) = Suc (length (fixed_bodies (rapierWorld ?S)))"
    and i: "length (colliders (rapierWorld s')) = Suc (length (colliders (rapierWorld ?S)))"
    and j: "translation (rigidBody (rapierWorld s')) = spawn_point"
    by auto
  have k: "world_pose scene_pose p = p"
    by (cases p) (simp add: world_pose_def scene_pose_def applyQuaternion_def cross_def
        vadd_def qmul_def Let_def split: prod.splits)
  have "p = ((0, 0, 2), (0, 1, 0, 0))"
    using g unfolding k
    by (simp add: carrying_pose world_pose_def applyQuaternion_def cross_def vadd_def
        qmul_def Let_def identity_quat_def)
  with a c d e f h i j started_cube carrying_pose(1) carrying_state(1,2)
  show ?thesis by simp
qed

section \<open>Stepping the world\<close>

lemma log_finalize [simp]:
  "engine_log (rapierWorld (finalize_placed s)) = engine_log (rapierWorld s)"
  by (simp add: finalize_placed_eq Let_def createCollider_def split: option.splits)

lemma log_target_block:
  "\<exists>imp. engine_log (rapierWorld (target_block t s)) = engine_log (rapierWorld s) @ imp \<and>
         (t = None \<longrightarrow> imp = []) \<and> length imp \<le> 1 \<and>
         (\<forall>e\<in>set imp. is_impulse e)"
proof (cases t)
  case None
  then show ?thesis by (simp add: target_block_def)
next
  case (Some p)
  show ?thesis
  proof (cases "vlength (vsub p (translation (rigidBody (rapierWorld s)))) < 1 / 100")
    case True
    with Some show ?thesis by (simp add: target_block_def Let_def)
  next
    case False
    let ?v = "vscale (mass (rigidBody (rapierWorld s)))
                (vscale (1 / 10) (normalize_vec (vsub p (translation (rigidBody (rapierWorld s))))))"
    from Some False have "engine_log (rapierWorld (target_block t s)) =
        engine_log (rapierWorld s) @ [ApplyImpulse ?v]"
      by (simp add: target_block_def Let_def applyImpulse_def)
    then show ?thesis using Some
      by (intro exI [of _ "[ApplyImpulse ?v]"]) (simp add: is_impulse_def)
  qed
qed

lemma log_physics_block:
  "engine_log (rapierWorld (physics_block g d f s)) =
     engine_log (rapierWorld s) @ [ApplyTorqueImpulse (0, thumbstick_x g * (- (6 / 100)), 0), Step d]"
  "timestep (rapierWorld (physics_block g d f s)) = d"
  by (simp_all add: physics_block_def Let_def applyTorqueImpulse_def step_world_def)

lemma log_after_trigger [simp]:
  "engine_log (rapierWorld (after_trigger c s)) = engine_log (rapierWorld s)"
  by (simp add: after_trigger_def split: option.splits)

text \<open>
  C6, as amended. After physics initialization, a frame in which the right controller
  is missing or has no ray space adds no call to the engine: the world is not stepped.
  A frame in which the controller has a ray space and a gamepad ends without error, sets
  the time step to the elapsed time of the frame and adds, after at most one translation
  impulse and none when no target exists, exactly the torque impulse about the vertical
  axis in proportion to the thumbstick and one step of the world.
\<close>

theorem frame_steps_world_once:
  assumes "RAPIER s"
  shows "(right f = None \<or> (\<exists>c. right f = Some c \<and> \<not> targetRaySpace c) \<longrightarrow>
            engine_log (rapierWorld (snd (update H f d s))) = engine_log (rapierWorld s)) \<and>
         (\<forall>c g. right f = Some c \<and> targetRaySpace c \<and> gamepadWrapper c = Some g \<longrightarrow>
            fst (update H f d s) = None \<and>
            timestep (rapierWorld (snd (update H f d s))) = d \<and>
            (\<exists>imp. engine_log (rapierWorld (snd (update H f d s))) =
                     engine_log (rapierWorld s) @ imp @
                       [ApplyTorqueImpulse (0, thumbstick_x g * (- (6 / 100)), 0), Step d] \<and>
                   (floor_hit f = None \<longrightarrow> imp = []) \<and> length imp \<le> 1 \<and>
                   (\<forall>e\<in>set imp. is_impulse e)))"
proof -
  have none: "engine_log (rapierWorld (snd (update H f d s))) = engine_log (rapierWorld s)"
    if "right f = None \<or> (\<exists>c. right f = Some c \<and> \<not> targetRaySpace c)"
  proof (cases "right f")
    case None
    with assms show ?thesis by (simp add: update_made)
  next
    case (Some c)
    with that have "\<not> targetRaySpace c" by simp
    with assms Some show ?thesis by (simp add: update_made)
  qed
  have some: "fst (update H f d s) = None \<and>
            timestep (rapierWorld (snd (update H f d s))) = d \<and>
            (\<exists>imp. engine_log (rapierWorld (snd (update H f d s))) =
                     engine_log (rapierWorld s) @ imp @
                       [ApplyTorqueImpulse (0, thumbstick_x g * (- (6 / 100)), 0), Step d] \<and>
                   (floor_hit f = None \<longrightarrow> imp = []) \<and> length imp \<le> 1 \<and>
                   (\<forall>e\<in>set imp. is_impulse e))"
    if c: "right f = Some c" "targetRaySpace c" "gamepadWrapper c = Some g" for c g
  proof -
    let ?s4 = "notes_block H c f (after_trigger c (spawn_block (first_frame H s)))"
    let ?s5 = "target_block (floor_hit f) ?s4"
    have u1: "fst (update H f d s) = None"
      using assms c by (simp add: update_made)
    have u2: "rapierWorld (snd (update H f d s)) = rapierWorld (physics_block g d f ?s5)"
      using assms c by (simp add: update_made)
    have l4: "engine_log (rapierWorld ?s4) = engine_log (rapierWorld s)" by simp
    from log_target_block [of "floor_hit f" ?s4] obtain imp where
      imp: "engine_log (rapierWorld ?s5) = engine_log (rapierWorld ?s4) @ imp"
        "floor_hit f = None \<longrightarrow> imp = []" "length imp \<le> 1"
        "\<forall>e\<in>set imp. is_impulse e"
      by (elim exE conjE)
    have "engine_log (rapierWorld (snd (update H f d s))) =
            engine_log (rapierWorld s) @ imp @
              [ApplyTorqueImpulse (0, thumbstick_x g * (- (6 / 100)), 0), Step d]"
      unfolding u2 log_physics_block imp(1) l4 by simp
    moreover have "timestep (rapierWorld (snd (update H f d s))) = d"
      unfolding u2 by (rule log_physics_block)
    moreover note u1
    ultimately show ?thesis using imp(2,3,4)
      by - (intro conjI exI [of _ imp]; assumption)
  qed
  have part1: "right f = None \<or> (\<exists>c. right f = Some c \<and> \<not> targetRaySpace c) \<longrightarrow>
            engine_log (rapierWorld (snd (update H f d s))) = engine_log (rapierWorld s)"
    by (rule impI) (rule none)
  have part2: "\<forall>c g. right f = Some c \<and> targetRaySpace c \<and> gamepadWrapper c = Some g \<longrightarrow>
            fst (update H f d s) = None \<and>
            timestep (rapierWorld (snd (update H f d s))) = d \<and>
            (\<exists>imp. engine_log (rapierWorld (snd (update H f d s))) =
                     engine_log (rapierWorld s) @ imp @
                       [ApplyTorqueImpulse (0, thumbstick_x g * (- (6 / 100)), 0), Step d] \<and>
                   (floor_hit f = None \<longrightarrow> imp = []) \<and> length imp \<le> 1 \<and>
                   (\<forall>e\<in>set imp. is_impulse e))"
  proof (intro allI impI)
    fix c g
    assume "right f = Some c \<and> targetRaySpace c \<and> gamepadWrapper c = Some g"
    then have "right f = Some c" "targetRaySpace c" "gamepadWrapper c = Some g" by simp_all
    then show "fst (update H f d s) = None \<and>
            timestep (rapierWorld (snd (update H f d s))) = d \<and>
            (\<exists>imp. engine_log (rapierWorld (snd (update H f d s))) =
                     engine_log (rapierWorld s) @ imp @
                       [ApplyTorqueImpulse (0, thumbstick_x g * (- (6 / 100)), 0), Step d] \<and>
                   (floor_hit f = None \<longrightarrow> imp = []) \<and> length imp \<le> 1 \<and>
                   (\<forall>e\<in>set imp. is_impulse e))"
      by (rule some)
  qed
  show ?thesis by (rule conjI [OF part1 part2])
qed

text \<open>
  C6 as stated fails on a frame without the right controller: the engine is loaded, and
  after the frame the log of the world still holds no step.
\<close>

theorem frame_without_controller_counterexample:
  "RAPIER (run sample_host [RapierLoaded 1] (init_sys None)) \<and>
   engine_log (rapierWorld (snd (update sample_host (idle_frame\<lparr>right := None\<rparr>) (1/60)
     (run sample_host [RapierLoaded 1] (init_sys None))))) = []"
  by (simp add: update_made apply_event_def rapier_loaded_def init_sys_def init_world_def
        createCollider_def idle_frame_def)

text \<open>
  The amended C6 on a frame with no target point and the thumbstick at rest: the torque
  impulse and one step with the elapsed time, and nothing else.
\<close>

theorem frame_steps_world_once_witness:
  "RAPIER (run sample_host started_events (init_sys None)) \<and>
   right (idle_frame\<lparr>floor_hit := None\<rparr>) =
     Some \<lparr>targetRaySpace = True, gamepadWrapper = Some idle_pad\<rparr> \<and>
   floor_hit (idle_frame\<lparr>floor_hit := None\<rparr>) = None \<and>
   fst (update sample_host (idle_frame\<lparr>floor_hit := None\<rparr>) (1/60)
          (run sample_host started_events (init_sys None))) = None \<and>
   engine_log (rapierWorld (snd (update sample_host (idle_frame\<lparr>floor_hit := None\<rparr>) (1/60)
          (run sample_host started_events (init_sys None))))) =
     engine_log (rapierWorld (run sample_host started_events (init_sys None))) @
       [ApplyTorqueImpulse (0, 0, 0), Step (1/60)]"
proof -
  let ?s = "run sample_host started_events (init_sys None)"
  let ?f = "idle_frame\<lparr>floor_hit := None\<rparr>"
  let ?c = "\<lparr>targetRaySpace = True, gamepadWrapper = Some idle_pad\<rparr>"
  have r: "right ?f = Some ?c" and t: "floor_hit ?f = None" and ray: "targetRaySpace ?c"
    and g: "gamepadWrapper ?c = Some idle_pad"
    by (simp_all add: idle_frame_def)
  from frame_steps_world_once [OF started_RAPIER, of ?f sample_host "1/60"]
  have "\<forall>c g. right ?f = Some c \<and> targetRaySpace c \<and> gamepadWrapper c = Some g \<longrightarrow>
            fst (update sample_host ?f (1/60) ?s) = None \<and>
            timestep (rapierWorld (snd (update sample_host ?f (1/60) ?s))) = 1/60 \<and>
            (\<exists>imp. engine_log (rapierWorld (snd (update sample_host ?f (1/60) ?s))) =
                     engine_log (rapierWorld ?s) @ imp @
                       [ApplyTorqueImpulse (0, thumbstick_x g * (- (6 / 100)), 0), Step (1/60)] \<and>
                   (floor_hit ?f = None \<longrightarrow> imp = []) \<and> length imp \<le> 1 \<and>
                   (\<forall>e\<in>set imp. is_impulse e))"
    by (rule conjunct2)
  then have "fst (update sample_host ?f (1/60) ?s) = None \<and>
            timestep (rapierWorld (snd (update sample_host ?f (1/60) ?s))) = 1/60 \<and>
            (\<exists>imp. engine_log (rapierWorld (snd (update sample_host ?f (1/60) ?s))) =
                     engine_log (rapierWorld ?s) @ imp @
                       [ApplyTorqueImpulse (0, thumbstick_x idle_pad * (- (6 / 100)), 0), Step (1/60)] \<and>
                   (floor_hit ?f = None \<longrightarrow> imp = []) \<and> length imp \<le> 1 \<and>
                   (\<forall>e\<in>set imp. is_impulse e))"
    using r ray g by blast
  then obtain imp where
    a: "fst (update sample_host ?f (1/60) ?s) = None"
    and b: "engine_log (rapierWorld (snd (update sample_host ?f (1/60) ?s))) =
                     engine_log (rapierWorld ?s) @ imp @
                       [ApplyTorqueImpulse (0, thumbstick_x idle_pad * (- (6 / 100)), 0), Step (1/60)]"
    and c: "floor_hit ?f = None \<longrightarrow> imp = []"
    by (elim exE conjE)
  from c t have "imp = []" by simp
  with b have "engine_log (rapierWorld (snd (update sample_host ?f (1/60) ?s))) =
     engine_log (rapierWorld ?s) @ [ApplyTorqueImpulse (0, 0, 0), Step (1/60)]"
    by (simp add: idle_pad_def)
  with started_RAPIER r t a show ?thesis by simp
qed

section \<open>The primary button and the delete confirmation\<close>



text \<open>
  Where the B button stands in a frame: with no other button clicked, the notes after the
  frame are what the B button and then the loop of the delete confirmation make of the
  notes after hover detection.
\<close>

lemma primary_press_in_frame:
  assumes "RAPIER s" and "right f = Some c" and "targetRaySpace c"
    and "gamepadWrapper c = Some g" and "click g = {BUTTON_2}"
  shows "ns (snd (update H f d s)) =
           confirm_block f
             (button2_block H c (floor_hit f) (cube_position (first_frame H s))
                (hover_block f (ns (first_frame H s))))"
proof -
  have "button1_block c n = n" "squeeze_block c n = n" for n
    using assms(4,5)
    by (simp_all add: button1_block_def squeeze_block_def button_click_def split: option.splits)
  with assms show ?thesis by (simp add: ns_update)
qed

text \<open>
  C9, as amended. The tick of the delete confirmation opened for the note \<open>r\<close> does
  nothing without the right controller's ray space, and otherwise reacts to a click of
  the A button only. A click while the ray is over the confirm target removes the note
  and tears the dialog down. A click while the ray is over the cancel target and not over
  the confirm target tears the dialog down and changes nothing else. A click over
  neither target, or no click of the A button, changes nothing; a click of the B button
  is no click of the A button.
\<close>

theorem confirm_tick_outcomes:
  assumes "right f = Some c" and "targetRaySpace c"
  shows "(button_click c BUTTON_1 \<and> over_confirm f \<longrightarrow>
            confirm_onFrame f r s =
              (removeNote (Some r) s)\<lparr>activeConfirm3D := None, confirmLoop := None\<rparr> \<and>
            (\<forall>x\<in>set (all_notes (confirm_onFrame f r s)). ref x \<noteq> r)) \<and>
         (button_click c BUTTON_1 \<and> \<not> over_confirm f \<and> over_cancel f \<longrightarrow>
            confirm_onFrame f r s = s\<lparr>activeConfirm3D := None, confirmLoop := None\<rparr>) \<and>
         (button_click c BUTTON_1 \<and> \<not> over_confirm f \<and> \<not> over_cancel f \<longrightarrow>
            confirm_onFrame f r s = s) \<and>
         (\<not> button_click c BUTTON_1 \<longrightarrow> confirm_onFrame f r s = s)"
  using assms
  by (simp add: confirm_onFrame_def cleanup_def remove_fields)

lemma confirm_events_state:
  "confirmLoop (ns (run sample_host confirm_events (init_sys None))) = Some 0"
  "activeConfirm3D (ns (run sample_host confirm_events (init_sys None))) = Some 0"
  "map ref (all_notes (ns (run sample_host confirm_events (init_sys None)))) = [0]"
  by (simp_all add: confirm_events_def sys_eval idle_frame_def idle_pad_def press_def notes_eval)

text \<open>
  C9 as stated fails on the button: with the dialog open for a note, a frame in which
  the B button, the primary action button of C8, is clicked while the ray is over the
  confirm target leaves the note in the collection and the dialog open.
\<close>

theorem confirm_ignores_primary_button_counterexample:
  "confirmLoop (ns (run sample_host confirm_events (init_sys None))) = Some 0 \<and>
   map ref (all_notes (ns (run sample_host
     (confirm_events @ [Frame ((press BUTTON_2 idle_frame)\<lparr>floor_hit := Some (1, 0, 2), over_confirm := True\<rparr>) (1/60)])
     (init_sys None)))) = [0] \<and>
   confirmLoop (ns (run sample_host
     (confirm_events @ [Frame ((press BUTTON_2 idle_frame)\<lparr>floor_hit := Some (1, 0, 2), over_confirm := True\<rparr>) (1/60)])
     (init_sys None))) = Some 0"
  by (simp add: confirm_events_def sys_eval idle_frame_def idle_pad_def press_def notes_eval)

text \<open>
  The amended C9 with the dialog open for the only note: a click of the A button while
  the ray is over the confirm target removes the note and closes the dialog.
\<close>

theorem confirm_tick_outcomes_witness:
  "right ((press BUTTON_1 idle_frame)\<lparr>floor_hit := Some (1, 0, 2), over_confirm := True\<rparr>) =
     Some \<lparr>targetRaySpace = True, gamepadWrapper = Some (idle_pad\<lparr>click := {BUTTON_1}\<rparr>)\<rparr> \<and>
   button_click
     \<lparr>targetRaySpace = True, gamepadWrapper = Some (idle_pad\<lparr>click := {BUTTON_1}\<rparr>)\<rparr>
     BUTTON_1 \<and>
   over_confirm ((press BUTTON_1 idle_frame)\<lparr>floor_hit := Some (1, 0, 2), over_confirm := True\<rparr>) \<and>
   all_notes (confirm_onFrame ((press BUTTON_1 idle_frame)\<lparr>floor_hit := Some (1, 0, 2), over_confirm := True\<rparr>) 0
     (ns (run sample_host confirm_events (init_sys None)))) = [] \<and>
   confirmLoop (confirm_onFrame ((press BUTTON_1 idle_frame)\<lparr>floor_hit := Some (1, 0, 2), over_confirm := True\<rparr>) 0
     (ns (run sample_host confirm_events (init_sys None)))) = None"
proof -
  let ?f = "(press BUTTON_1 idle_frame)\<lparr>floor_hit := Some (1, 0, 2), over_confirm := True\<rparr>"
  let ?c = "\<lparr>targetRaySpace = True, gamepadWrapper = Some (idle_pad\<lparr>click := {BUTTON_1}\<rparr>)\<rparr>"
  let ?s = "ns (run sample_host confirm_events (init_sys None))"
  have r: "right ?f = Some ?c" by (simp add: press_def)
  have t: "targetRaySpace ?c" by simp
  have b: "button_click ?c BUTTON_1" by (simp add: button_click_def idle_pad_def)
  have o: "over_confirm ?f" by simp
  from confirm_tick_outcomes [OF r t, of 0 ?s] b o
  have e: "confirm_onFrame ?f 0 ?s =
             (removeNote (Some 0) ?s)\<lparr>activeConfirm3D := None, confirmLoop := None\<rparr>"
    by blast
  have "filter (\<lambda>n. ref n \<noteq> 0) (all_notes ?s) = []"
    using confirm_events_state(3) by (cases "all_notes ?s") auto
  then have "all_notes (confirm_onFrame ?f 0 ?s) = []"
    unfolding e by (simp add: remove_fields)
  moreover have "confirmLoop (confirm_onFrame ?f 0 ?s) = None" unfolding e by simp
  ultimately show ?thesis using r b o by simp
qed

section \<open>Moving towards the target\<close>

lemma vlength_vscale: "vlength (vscale k v) = \<bar>k\<bar> * vlength v"
proof -
  obtain x y z where v: "v = (x, y, z)" by (cases v) auto
  have "k * x * (k * x) + k * y * (k * y) + k * z * (k * z) = k\<^sup>2 * (x * x + y * y + z * z)"
    by (simp add: power2_eq_square algebra_simps)
  then have "sqrt (k * x * (k * x) + k * y * (k * y) + k * z * (k * z)) =
             \<bar>k\<bar> * sqrt (x * x + y * y + z * z)"
    by (simp add: real_sqrt_mult)
  then show ?thesis by (simp add: vlength_def vscale_def v)
qed

lemma normalize_vec_unit: "vlength v \<noteq> 0 \<Longrightarrow> vlength (normalize_vec v) = 1"
proof -
  assume a: "vlength v \<noteq> 0"
  have "0 \<le> vlength v" by (simp add: vlength_def)
  with a have "0 < vlength v" by simp
  then show ?thesis by (simp add: normalize_vec_def vlength_vscale a)
qed

text \<open>
  What the frame does to the carrying body when the ray hits the floor at \<open>t\<close>: within
  the arrival threshold the linear velocity is set to zero and no impulse is applied;
  otherwise one impulse is applied, the displacement scaled to length 1, then by the
  speed 0.1, then by the mass of the body.
\<close>

lemma target_block_arrival:
  "(let w = rapierWorld s; dir = vsub t (translation (rigidBody w));
        w' = rapierWorld (target_block (Some t) s)
    in (vlength dir < 1 / 100 \<longrightarrow>
          linvel (rigidBody w') = Some (0, 0, 0) \<and> engine_log w' = engine_log w) \<and>
       (\<not> vlength dir < 1 / 100 \<longrightarrow>
          engine_log w' =
            engine_log w @
              [ApplyImpulse (vscale (mass (rigidBody w)) (vscale (1 / 10) (normalize_vec dir)))] \<and>
          vlength (normalize_vec dir) = 1))"
proof -
  have "vlength (normalize_vec d) = 1" if "\<not> vlength d < 1 / 100" for d
    by (rule normalize_vec_unit) (use that in simp)
  then show ?thesis
    by (simp add: target_block_def Let_def applyImpulse_def)
qed

end
